theory Spec2Isabelle
  imports Main "HOL-Library.Multiset" "HOL-Library.AList"
begin

section \<open>The fleet launcher \<^verbatim>\<open>c3_launcher.py\<close>: data\<close>

text \<open>
  The script keeps its state in module globals and talks to the provider over HTTP.
  The model threads one record \<open>world\<close> through every function: the globals, the
  requests issued so far (\<open>trace\<close>), the log lines written so far (\<open>logged\<close>) and a
  counter \<open>ticks\<close> of the interactions with the outside (a clock reading or an HTTP
  exchange). The outside is the record \<open>env\<close>: what the clock shows and what the provider
  answers at each tick. An \<open>env\<close> is arbitrary, so a response may depend on everything
  that happened before it.

  A response is its status code, its text and the fields of its JSON body that the script
  reads. A key that a body lacks reads as Python's \<^verbatim>\<open>None\<close> through \<^verbatim>\<open>.get\<close>; for the
  host name and the workload id \<^verbatim>\<open>None\<close> behaves as one more value, and the strings of
  the model stand for these values. For the \<^verbatim>\<open>stopped\<close> timestamp of a stop response the
  difference matters (\<^verbatim>\<open>datetime.fromtimestamp(None)\<close> raises), so it is an option.

  Nothing in the script catches what \<^verbatim>\<open>requests.post\<close> or \<^verbatim>\<open>response.json()\<close> raise.
  For the stop call this is part of the model: the exchange either raises or gives a
  response, and an exception goes up through \<^verbatim>\<open>remove_failed_node\<close>, the monitor and
  \<^verbatim>\<open>stop_all_workloads\<close>. The list call and the launch call are modelled from the point
  where the exchange has given a response; the statements about them are about the runs
  in which it does.
\<close>

text \<open>The dict returned by \<^verbatim>\<open>launch_workload\<close>: the response body with the keys
  \<^verbatim>\<open>type\<close> and \<^verbatim>\<open>expires\<close> set by the script. \<open>rest\<close> is whatever else the body holds.\<close>

record node_info =
  node :: string
  workload :: string
  wtype :: string
  expires :: int
  rest :: string

record launch_response =
  l_status_code :: int
  l_text :: string
  l_node :: string
  l_workload :: string
  l_rest :: string

text \<open>The body of a stop response: empty (falsy in Python), or a dict whose keys
  \<^verbatim>\<open>stopped\<close> and \<^verbatim>\<open>refund_amount\<close> may be missing.\<close>

datatype stop_json = StopEmpty | StopDict (stopped: "int option") (refund_amount: "int option")

record stop_response =
  s_status_code :: int
  s_text :: string
  s_json :: stop_json

text \<open>The list response: \<open>ls_json\<close> holds the \<^verbatim>\<open>workload\<close> value of each entry.\<close>

record list_response =
  ls_status_code :: int
  ls_text :: string
  ls_json :: "string list"

text \<open>\<^verbatim>\<open>requests.get\<close> in \<^verbatim>\<open>check_node_health\<close> either returns a status code or raises
  (the only call whose exceptions the script catches).\<close>

datatype health_response = HealthStatus int | HealthException string

text \<open>The exceptions that leave a function of the script. \<open>RequestException\<close> stands for
  whatever line 103 to 106 raise (no connection, a timeout of the transport, a body that
  is not JSON); \<open>OverflowError\<close> for what \<^verbatim>\<open>datetime.fromtimestamp\<close> raises on a number
  outside the range of the platform (there also \<^verbatim>\<open>OSError\<close> or \<^verbatim>\<open>ValueError\<close>).\<close>

datatype py_error = TypeError | OverflowError | RequestException string | SystemExit int

text \<open>The outside. The stop exchange raises (\<open>Inl\<close>) or gives a response (\<open>Inr\<close>).
  \<open>fromtimestamp_ok\<close> tells which numbers \<^verbatim>\<open>datetime.fromtimestamp\<close> accepts on the
  platform; the clock readings of the platform itself are among them.\<close>

record env =
  time_at :: "nat \<Rightarrow> int"
  launch_resp :: "nat \<Rightarrow> string \<Rightarrow> int \<Rightarrow> launch_response"
  stop_resp :: "nat \<Rightarrow> string \<Rightarrow> py_error + stop_response"
  list_resp :: "nat \<Rightarrow> list_response"
  health_resp :: "nat \<Rightarrow> string \<Rightarrow> health_response"
  fromtimestamp_ok :: "int \<Rightarrow> bool"

text \<open>What the script does to the outside, in order.\<close>

datatype event =
    ReqList
  | ReqLaunch string int
  | ReqStop string
  | ReqHealth string
  | Sleep int
  | ThreadStart node_info
  | ThreadJoin string

text \<open>One constructor for each \<^verbatim>\<open>logger\<close> call of the script, grouped by the function
  that writes it.\<close>

datatype provider_log =
    ErrorGettingWorkloads int
  | ErrorLaunchingWorkload int
  | ErrorStoppingWorkload int
  | ResponseText string
  | HealthCheckFailed string string

datatype stop_all_log =
    StoppingAll nat
  | Stopping string string
  | SuccessfullyStopped string int int
  | FailedToStop string
  | AllWorkloadsStopped

datatype reconcile_log =
    BelowTarget nat int nat
  | LaunchingReplacement nat nat string
  | LaunchedReplacement string string
  | FailedToLaunchReplacement
  | RemovingFailedNode string string
  | StoppedFailedNode string
  | FailedToStopContinuing string

datatype monitor_log =
    StartingMonitoring string string
  | NodeUp string
  | InitialCheckFailed string
  | NoLongerInWorkloads string string
  | AttemptFailed string nat
  | FailedAllChecks string
  | NodeHealthy string
  | MonitoringStopped string
  | MonitoringThreadStarted string int

datatype launch_log =
    LaunchingNodes int bool string
  | PollingInterval int
  | LaunchingNode nat int string
  | LaunchedNode nat string string
  | WaitingToInitialize
  | FailedToLaunchNode nat
  | LaunchSummary
  | Requested int
  | Successful nat
  | SummaryLine nat string string int

datatype main_log =
    NodesMustBeAtLeastOne
  | SettingPollingInterval int
  | ShuttingDown
  | WaitingFor string
  | StoppingBeforeExit
  | LeavingRunning
  | Bye

datatype log_event =
    Provider provider_log
  | StopAll stop_all_log
  | Reconcile reconcile_log
  | Monitor monitor_log
  | Launch launch_log
  | MainLog main_log

record world =
  active_nodes :: "node_info list"
  node_failures :: "string \<rightharpoonup> int"
  node_threads :: "(string \<times> node_info) list"
  should_monitor :: bool
  target_node_count :: int
  node_type_setting :: string
  keep_running :: bool
  WORKLOAD_POLL :: int
  ticks :: nat
  trace :: "event list"
  logged :: "log_event list"

definition tick :: "world \<Rightarrow> world" where
  "tick w = w\<lparr>ticks := Suc (ticks w)\<rparr>"

definition emit :: "event \<Rightarrow> world \<Rightarrow> world" where
  "emit ev w = w\<lparr>trace := trace w @ [ev]\<rparr>"

definition logw :: "log_event \<Rightarrow> world \<Rightarrow> world" where
  "logw l w = w\<lparr>logged := logged w @ [l]\<rparr>"

section \<open>The provider calls\<close>

definition get_running_workloads :: "env \<Rightarrow> world \<Rightarrow> string list \<times> world" where
  "get_running_workloads e w =
     (let response = list_resp e (ticks w);
          w1 = tick (emit ReqList w)
      in if ls_status_code response = 200 then (ls_json response, w1)
         else ([], logw (Provider (ResponseText (ls_text response)))
                     (logw (Provider (ErrorGettingWorkloads (ls_status_code response))) w1)))"

definition launch_workload :: "env \<Rightarrow> string \<Rightarrow> world \<Rightarrow> node_info option \<times> world" where
  "launch_workload e workload_type w =
     (let current_time = time_at e (ticks w);
          w1 = tick w;
          expires = current_time + 3600;
          response = launch_resp e (ticks w1) workload_type expires;
          w2 = tick (emit (ReqLaunch workload_type expires) w1)
      in if l_status_code response = 200
         then (Some \<lparr>node = l_node response, workload = l_workload response,
                      wtype = workload_type, expires = expires, rest = l_rest response\<rparr>, w2)
         else (None, logw (Provider (ResponseText (l_text response)))
                       (logw (Provider (ErrorLaunchingWorkload (l_status_code response))) w2)))"

text \<open>\<^verbatim>\<open>stop_workload\<close> raises (\<open>Inl\<close>) or returns (\<open>Inr\<close>); the state is the one in
  which it does so.\<close>

definition stop_workload ::
  "env \<Rightarrow> string \<Rightarrow> world \<Rightarrow> (py_error + stop_json option) \<times> world" where
  "stop_workload e workload_id w =
     (let w1 = tick (emit (ReqStop workload_id) w)
      in case stop_resp e (ticks w) workload_id of
           Inl err \<Rightarrow> (Inl err, w1)
         | Inr response \<Rightarrow>
             if s_status_code response = 200 then (Inr (Some (s_json response)), w1)
             else (Inr None,
                   logw (Provider (ResponseText (s_text response)))
                     (logw (Provider (ErrorStoppingWorkload (s_status_code response))) w1)))"

text \<open>Python's truth value of what \<^verbatim>\<open>stop_workload\<close> returned: \<^verbatim>\<open>None\<close> and the empty
  dict are false.\<close>

fun truthy :: "stop_json option \<Rightarrow> bool" where
  "truthy None = False"
| "truthy (Some StopEmpty) = False"
| "truthy (Some (StopDict s r)) = True"

definition check_node_health :: "env \<Rightarrow> string \<Rightarrow> world \<Rightarrow> bool \<times> world" where
  "check_node_health e host w =
     (let response = health_resp e (ticks w) host;
          w1 = tick (emit (ReqHealth host) w)
      in case response of
           HealthStatus c \<Rightarrow> (c = 200, w1)
         | HealthException msg \<Rightarrow> (False, logw (Provider (HealthCheckFailed host msg)) w1))"

text \<open>\<^verbatim>\<open>result.get('stopped')\<close> and \<^verbatim>\<open>result.get('refund_amount', 0)\<close> on a truthy result.\<close>

fun get_stopped :: "stop_json option \<Rightarrow> int option" where
  "get_stopped (Some (StopDict s r)) = s"
| "get_stopped _ = None"

fun get_refund_amount :: "stop_json option \<Rightarrow> int" where
  "get_refund_amount (Some (StopDict s (Some r))) = r"
| "get_refund_amount _ = 0"

section \<open>Stopping the fleet\<close>

text \<open>The \<^verbatim>\<open>for\<close> loop of \<^verbatim>\<open>stop_all_workloads\<close>. An exception of the stop call ends
  it, and so does \<^verbatim>\<open>datetime.fromtimestamp\<close>, which raises \<^verbatim>\<open>TypeError\<close> on \<^verbatim>\<open>None\<close>
  and an error on a number out of range: nothing catches them.\<close>

fun stop_all_loop :: "env \<Rightarrow> node_info list \<Rightarrow> world \<Rightarrow> py_error \<times> world + world" where
  "stop_all_loop e [] w = Inr w"
| "stop_all_loop e (node_info # nodes) w =
     (let node_hostname = node node_info;
          node_id = workload node_info;
          w1 = logw (StopAll (Stopping node_hostname node_id)) w;
          (outcome, w2) = stop_workload e node_id w1
      in case outcome of
           Inl err \<Rightarrow> Inl (err, w2)
         | Inr result \<Rightarrow>
             if truthy result then
               (case get_stopped result of
                  None \<Rightarrow> Inl (TypeError, w2)
                | Some stopped_time \<Rightarrow>
                    if fromtimestamp_ok e stopped_time then
                      stop_all_loop e nodes
                        (logw (StopAll (SuccessfullyStopped node_hostname stopped_time
                                          (get_refund_amount result))) w2)
                    else Inl (OverflowError, w2))
             else stop_all_loop e nodes (logw (StopAll (FailedToStop node_hostname)) w2))"

definition stop_all_workloads :: "env \<Rightarrow> world \<Rightarrow> py_error \<times> world + world" where
  "stop_all_workloads e w =
     (case stop_all_loop e (active_nodes w)
             (logw (StopAll (StoppingAll (length (active_nodes w)))) w) of
        Inl err \<Rightarrow> Inl err
      | Inr w1 \<Rightarrow> Inr (logw (StopAll AllWorkloadsStopped) w1))"

section \<open>Reconciliation\<close>

text \<open>Starting a monitor thread is recorded as an event and in \<open>node_threads\<close>, a dict
  in insertion order. What the thread then does is \<open>monitor_node\<close> below, run on its own.\<close>

definition start_node_monitoring :: "node_info \<Rightarrow> world \<Rightarrow> world" where
  "start_node_monitoring node_info w =
     (let node_hostname = node node_info;
          w1 = emit (ThreadStart node_info) w;
          w2 = w1\<lparr>node_threads := AList.update node_hostname node_info (node_threads w1)\<rparr>
      in logw (Monitor (MonitoringThreadStarted node_hostname (WORKLOAD_POLL w2))) w2)"

definition alternate_type :: "nat \<Rightarrow> string" where
  "alternate_type idx = (if idx mod 2 = 0 then ''ollama_webui:fast'' else ''ollama_webui:large'')"

text \<open>The \<^verbatim>\<open>for i in range(nodes_to_add)\<close> loop of \<^verbatim>\<open>ensure_target_node_count\<close>;
  \<open>current_count\<close> was read once, before the loop.\<close>

fun ensure_loop :: "env \<Rightarrow> nat \<Rightarrow> nat \<Rightarrow> nat list \<Rightarrow> world \<Rightarrow> world" where
  "ensure_loop e current_count nodes_to_add [] w = w"
| "ensure_loop e current_count nodes_to_add (i # is) w =
     (let workload_type =
            (if node_type_setting w = ''alternate'' then alternate_type (current_count + i)
             else ''ollama_webui:'' @ node_type_setting w);
          w1 = logw (Reconcile (LaunchingReplacement (i + 1) nodes_to_add workload_type)) w;
          (result, w2) = launch_workload e workload_type w1
      in case result of
           Some r \<Rightarrow>
             (let w3 = w2\<lparr>active_nodes := active_nodes w2 @ [r]\<rparr>;
                  w4 = logw (Reconcile (LaunchedReplacement (node r) (workload r))) w3;
                  w5 = w4\<lparr>node_failures := (node_failures w4)(node r \<mapsto> 0)\<rparr>;
                  w6 = start_node_monitoring r w5
              in ensure_loop e current_count nodes_to_add is (emit (Sleep 2) w6))
         | None \<Rightarrow>
             ensure_loop e current_count nodes_to_add is
               (logw (Reconcile FailedToLaunchReplacement) w2))"

definition ensure_target_node_count :: "env \<Rightarrow> world \<Rightarrow> int \<times> world" where
  "ensure_target_node_count e w =
     (if \<not> keep_running w then (int (length (active_nodes w)), w)
      else
        (let current_count = length (active_nodes w)
         in if int current_count < target_node_count w then
              (let nodes_to_add = nat (target_node_count w - int current_count);
                   w1 = logw (Reconcile (BelowTarget current_count (target_node_count w)
                                           nodes_to_add)) w;
                   w2 = ensure_loop e current_count nodes_to_add [0..<nodes_to_add] w1
               in (int (length (active_nodes w2)), w2))
            else (int (length (active_nodes w)), w)))"

text \<open>An exception of the stop call leaves \<^verbatim>\<open>remove_failed_node\<close> before the node is taken
  out of \<open>active_nodes\<close>.\<close>

definition remove_failed_node :: "env \<Rightarrow> node_info \<Rightarrow> world \<Rightarrow> py_error \<times> world + world" where
  "remove_failed_node e node_info w =
     (let node_hostname = node node_info;
          node_id = workload node_info;
          w1 = logw (Reconcile (RemovingFailedNode node_hostname node_id)) w;
          (outcome, w2) = stop_workload e node_id w1
      in case outcome of
           Inl err \<Rightarrow> Inl (err, w2)
         | Inr stop_result \<Rightarrow>
             (let w3 = (if truthy stop_result
                        then logw (Reconcile (StoppedFailedNode node_hostname)) w2
                        else logw (Reconcile (FailedToStopContinuing node_hostname)) w2);
                  w4 = w3\<lparr>active_nodes :=
                            filter (\<lambda>n. workload n \<noteq> node_id) (active_nodes w3)\<rparr>
              in Inr (if keep_running w4 then snd (ensure_target_node_count e w4) else w4)))"

section \<open>The monitor of one node\<close>

text \<open>The \<^verbatim>\<open>for retry in range(3)\<close> loop: it stops at the first healthy answer.\<close>

fun retry_loop :: "env \<Rightarrow> string \<Rightarrow> nat list \<Rightarrow> world \<Rightarrow> bool \<times> world" where
  "retry_loop e node_hostname [] w = (False, w)"
| "retry_loop e node_hostname (retry # retries) w =
     (let (is_healthy, w1) = check_node_health e node_hostname w
      in if is_healthy then (True, w1)
         else retry_loop e node_hostname retries
                (logw (Monitor (AttemptFailed node_hostname (retry + 1))) w1))"

text \<open>How a pass through the body of the \<^verbatim>\<open>while\<close> loop ends: with \<^verbatim>\<open>break\<close>, at the
  end of the body, or with an exception.\<close>

datatype loop_ctl = Break | Continue | Raise py_error

text \<open>One pass through the body of the \<^verbatim>\<open>while\<close> loop of \<^verbatim>\<open>monitor_node\<close>.\<close>

definition monitor_cycle :: "env \<Rightarrow> node_info \<Rightarrow> world \<Rightarrow> loop_ctl \<times> world" where
  "monitor_cycle e node_info w =
     (let node_hostname = node node_info;
          node_id = workload node_info;
          (workload_ids, w1) = get_running_workloads e w
      in if node_id \<notin> set workload_ids then
           (let w2 = logw (Monitor (NoLongerInWorkloads node_hostname node_id)) w1;
                w3 = w2\<lparr>active_nodes :=
                          filter (\<lambda>n. workload n \<noteq> node_id) (active_nodes w2)\<rparr>
            in (Break, if keep_running w3 then snd (ensure_target_node_count e w3) else w3))
         else
           (let (is_alive, w2) = retry_loop e node_hostname [0..<3] w1
            in if \<not> is_alive then
                 (case remove_failed_node e node_info
                         (logw (Monitor (FailedAllChecks node_hostname)) w2) of
                    Inl (err, w3) \<Rightarrow> (Raise err, w3)
                  | Inr w3 \<Rightarrow> (Break, w3))
               else
                 (let w3 = logw (Monitor (NodeHealthy node_hostname)) w2
                  in (Continue, emit (Sleep (WORKLOAD_POLL w3)) w3))))"

text \<open>The \<^verbatim>\<open>while\<close> loop may run for ever, so it gets fuel: the number of passes it may
  still start. \<open>Unfinished\<close> says the loop was about to start one more pass, \<open>Died\<close> that
  an exception ended the thread.\<close>

datatype outcome = Finished world | Unfinished world | Died py_error world

fun monitor_loop :: "nat \<Rightarrow> env \<Rightarrow> node_info \<Rightarrow> world \<Rightarrow> outcome" where
  "monitor_loop 0 e node_info w =
     (if should_monitor w \<and> node_info \<in> set (active_nodes w) then Unfinished w
      else Finished w)"
| "monitor_loop (Suc n) e node_info w =
     (if should_monitor w \<and> node_info \<in> set (active_nodes w) then
        (case monitor_cycle e node_info w of
           (Break, w1) \<Rightarrow> Finished w1
         | (Continue, w1) \<Rightarrow> monitor_loop n e node_info w1
         | (Raise err, w1) \<Rightarrow> Died err w1)
      else Finished w)"

definition monitor_node :: "nat \<Rightarrow> env \<Rightarrow> node_info \<Rightarrow> world \<Rightarrow> outcome" where
  "monitor_node n e node_info w =
     (let node_hostname = node node_info;
          w1 = logw (Monitor (StartingMonitoring node_hostname (wtype node_info))) w;
          (is_healthy, w2) = check_node_health e node_hostname w1;
          w3 = (if is_healthy then logw (Monitor (NodeUp node_hostname)) w2
                else logw (Monitor (InitialCheckFailed node_hostname)) w2)
      in case monitor_loop n e node_info w3 of
           Finished w4 \<Rightarrow> Finished (logw (Monitor (MonitoringStopped node_hostname)) w4)
         | Unfinished w4 \<Rightarrow> Unfinished w4
         | Died err w4 \<Rightarrow> Died err w4)"

section \<open>The initial launch\<close>

text \<open>The \<^verbatim>\<open>for i in range(num_nodes)\<close> loop of \<^verbatim>\<open>launch_nodes\<close>, with the list
  \<open>successful_launches\<close> it builds.\<close>

fun launch_loop ::
  "env \<Rightarrow> int \<Rightarrow> string \<Rightarrow> nat list \<Rightarrow> node_info list \<Rightarrow> world \<Rightarrow> node_info list \<times> world" where
  "launch_loop e num_nodes node_type [] successful_launches w = (successful_launches, w)"
| "launch_loop e num_nodes node_type (i # is) successful_launches w =
     (let workload_type =
            (if node_type = ''alternate'' then alternate_type i
             else ''ollama_webui:'' @ node_type);
          w1 = logw (Launch (LaunchingNode (i + 1) num_nodes workload_type)) w;
          (result, w2) = launch_workload e workload_type w1
      in case result of
           Some r \<Rightarrow>
             (let w3 = logw (Launch (LaunchedNode (i + 1) (node r) (workload r))) w2;
                  w4 = emit (Sleep 5) (logw (Launch WaitingToInitialize) w3);
                  w5 = w4\<lparr>node_failures := (node_failures w4)(node r \<mapsto> 0)\<rparr>
              in launch_loop e num_nodes node_type is (successful_launches @ [r]) w5)
         | None \<Rightarrow>
             launch_loop e num_nodes node_type is successful_launches
               (logw (Launch (FailedToLaunchNode (i + 1))) w2))"

fun summary :: "nat \<Rightarrow> node_info list \<Rightarrow> world \<Rightarrow> world" where
  "summary idx [] w = w"
| "summary idx (n # ns) w =
     summary (idx + 1) ns (logw (Launch (SummaryLine (idx + 1) (node n) (wtype n) (expires n))) w)"

fun start_all :: "node_info list \<Rightarrow> world \<Rightarrow> world" where
  "start_all [] w = w"
| "start_all (node_info # nodes) w = start_all nodes (start_node_monitoring node_info w)"

definition launch_nodes :: "env \<Rightarrow> int \<Rightarrow> bool \<Rightarrow> string \<Rightarrow> world \<Rightarrow> world" where
  "launch_nodes e num_nodes keep_nodes_running node_type w =
     (let w1 = w\<lparr>target_node_count := num_nodes, node_type_setting := node_type,
                  keep_running := keep_nodes_running\<rparr>;
          w2 = logw (Launch (LaunchingNodes num_nodes (keep_running w1) node_type)) w1;
          w3 = logw (Launch (PollingInterval (WORKLOAD_POLL w2))) w2;
          w4 = tick w3;
          (successful_launches, w5) = launch_loop e num_nodes node_type [0..<nat num_nodes] [] w4;
          w6 = logw (Launch (Successful (length successful_launches)))
                 (logw (Launch (Requested num_nodes)) (logw (Launch LaunchSummary) w5));
          w7 = summary 0 successful_launches w6;
          w8 = w7\<lparr>active_nodes := successful_launches\<rparr>;
          w9 = start_all (active_nodes w8) w8
      in if keep_running w9 \<and> int (length successful_launches) < num_nodes
         then snd (ensure_target_node_count e w9) else w9)"

section \<open>The command line\<close>

text \<open>What \<^verbatim>\<open>argparse\<close> hands to \<^verbatim>\<open>main\<close>; an option that was not given is \<open>None\<close>.\<close>

record args =
  nodes :: int
  runtime :: "int option"
  arg_keep_running :: bool
  poll :: "int option"
  arg_type :: string
  no_rm :: bool

text \<open>\<^verbatim>\<open>main\<close> up to the start of its waiting loop: the checks and \<^verbatim>\<open>launch_nodes\<close>.\<close>

definition main_launch :: "env \<Rightarrow> args \<Rightarrow> world \<Rightarrow> py_error \<times> world + world" where
  "main_launch e a w =
     (if nodes a < 1 then Inl (SystemExit 1, logw (MainLog NodesMustBeAtLeastOne) w)
      else
        (let w1 = (case poll a of
                     None \<Rightarrow> w
                   | Some p \<Rightarrow>
                       if p > 0
                       then (let w0 = w\<lparr>WORKLOAD_POLL := p\<rparr>
                             in logw (MainLog (SettingPollingInterval (WORKLOAD_POLL w0))) w0)
                       else w)
         in Inr (launch_nodes e (nodes a) (arg_keep_running a) (arg_type a) w1)))"

text \<open>The handler of \<^verbatim>\<open>KeyboardInterrupt\<close>: clear the flag, join every thread for at most
  two seconds, stop the fleet unless \<^verbatim>\<open>--no-rm\<close> was given.\<close>

fun join_all :: "(string \<times> node_info) list \<Rightarrow> world \<Rightarrow> world" where
  "join_all [] w = w"
| "join_all ((hostname, thread) # threads) w =
     join_all threads (emit (ThreadJoin hostname) (logw (MainLog (WaitingFor hostname)) w))"

definition main_interrupt :: "env \<Rightarrow> args \<Rightarrow> world \<Rightarrow> py_error \<times> world + world" where
  "main_interrupt e a w =
     (let w1 = logw (MainLog ShuttingDown) w;
          w2 = w1\<lparr>should_monitor := False\<rparr>;
          w3 = join_all (node_threads w2) w2
      in if \<not> no_rm a then
           (case stop_all_workloads e (logw (MainLog StoppingBeforeExit) w3) of
              Inl err \<Rightarrow> Inl err
            | Inr w4 \<Rightarrow> Inr (logw (MainLog Bye) w4))
         else Inr (logw (MainLog Bye) (logw (MainLog LeavingRunning) w3)))"

text \<open>A run of \<^verbatim>\<open>main\<close> that is interrupted while it waits for the monitors.\<close>

definition main :: "env \<Rightarrow> args \<Rightarrow> world \<Rightarrow> py_error \<times> world + world" where
  "main e a w =
     (case main_launch e a w of
        Inl err \<Rightarrow> Inl err
      | Inr w1 \<Rightarrow> main_interrupt e a w1)"

text \<open>The module globals as the script sets them before \<^verbatim>\<open>main\<close> runs; \<open>p\<close> is the
  polling interval read from the environment variable.\<close>

definition initial_world :: "int \<Rightarrow> world" where
  "initial_world p =
     \<lparr>active_nodes = [], node_failures = Map.empty, node_threads = [], should_monitor = True,
      target_node_count = 1, node_type_setting = ''alternate'', keep_running = False,
      WORKLOAD_POLL = p, ticks = 0, trace = [], logged = []\<rparr>"

section \<open>Monitor and main thread, interleaved\<close>

text \<open>
  The monitor runs in its own thread, the interrupt handler in the main thread. The
  monitor reads \<open>should_monitor\<close> in one place only, the test of its \<^verbatim>\<open>while\<close> loop. A
  schedule is a list of steps: the monitor evaluates its loop test, the monitor runs one
  loop body (which takes time: it waits for the provider), or the main thread executes
  \<^verbatim>\<open>should_monitor = False\<close>. A monitor whose body raises has \<open>Crashed\<close>.
\<close>

datatype pc = AtLoopTest | InLoopBody | Returned | Crashed

datatype sched = MonitorStep | MainClearsFlag

fun step :: "env \<Rightarrow> node_info \<Rightarrow> sched \<Rightarrow> pc \<times> world \<Rightarrow> pc \<times> world" where
  "step e node_info MainClearsFlag (p, w) = (p, w\<lparr>should_monitor := False\<rparr>)"
| "step e node_info MonitorStep (AtLoopTest, w) =
     (if should_monitor w \<and> node_info \<in> set (active_nodes w) then (InLoopBody, w)
      else (Returned, logw (Monitor (MonitoringStopped (node node_info))) w))"
| "step e node_info MonitorStep (InLoopBody, w) =
     (case monitor_cycle e node_info w of
        (Break, w1) \<Rightarrow> (Returned, logw (Monitor (MonitoringStopped (node node_info))) w1)
      | (Continue, w1) \<Rightarrow> (AtLoopTest, w1)
      | (Raise err, w1) \<Rightarrow> (Crashed, w1))"
| "step e node_info MonitorStep (Returned, w) = (Returned, w)"
| "step e node_info MonitorStep (Crashed, w) = (Crashed, w)"

fun run :: "env \<Rightarrow> node_info \<Rightarrow> sched list \<Rightarrow> pc \<times> world \<Rightarrow> pc \<times> world" where
  "run e node_info [] s = s"
| "run e node_info (x # xs) s = run e node_info xs (step e node_info x s)"

section \<open>Notions used in the statements\<close>

text \<open>The workload types of the launch requests in a trace, in the order they were sent.\<close>

fun launch_requests :: "event list \<Rightarrow> string list" where
  "launch_requests [] = []"
| "launch_requests (ReqLaunch ty x # es) = ty # launch_requests es"
| "launch_requests (ev # es) = launch_requests es"

text \<open>The type policy in the words of the specification: alternating gives the fast type
  at an even launch index and the large type at an odd one; a fixed policy gives the
  configured type at every index.\<close>

definition type_policy :: "string \<Rightarrow> nat \<Rightarrow> string" where
  "type_policy ty i =
     (if ty = ''alternate''
      then (if even i then ''ollama_webui:fast'' else ''ollama_webui:large'')
      else ''ollama_webui:'' @ ty)"

text \<open>Concrete inputs for the examples: a node, and a provider that answers every
  request with success and lists the workloads \<open>ids\<close>.\<close>

definition example_node :: "string \<Rightarrow> string \<Rightarrow> string \<Rightarrow> node_info" where
  "example_node h i ty = \<lparr>node = h, workload = i, wtype = ty, expires = 3700, rest = []\<rparr>"

definition steady_env :: "string list \<Rightarrow> env" where
  "steady_env ids =
     \<lparr>time_at = (\<lambda>t. 100 + int t),
      launch_resp = (\<lambda>t ty ex. \<lparr>l_status_code = 200, l_text = [], l_node = ''new-host'',
                                 l_workload = ''new-id'', l_rest = []\<rparr>),
      stop_resp = (\<lambda>t i. Inr \<lparr>s_status_code = 200, s_text = [],
                                s_json = StopDict (Some 500) (Some 7)\<rparr>),
      list_resp = (\<lambda>t. \<lparr>ls_status_code = 200, ls_text = [], ls_json = ids\<rparr>),
      health_resp = (\<lambda>t h. HealthStatus 200),
      fromtimestamp_ok = (\<lambda>t. 0 \<le> t \<and> t \<le> 253402300799)\<rparr>"

definition fleet_world :: "node_info list \<Rightarrow> int \<Rightarrow> bool \<Rightarrow> world" where
  "fleet_world ns target keep =
     (initial_world 30)\<lparr>active_nodes := ns, target_node_count := target, keep_running := keep\<rparr>"

text \<open>The state in which the loop of \<^verbatim>\<open>launch_nodes\<close> starts.\<close>

definition launch_start :: "int \<Rightarrow> bool \<Rightarrow> string \<Rightarrow> world \<Rightarrow> world" where
  "launch_start N k ty w =
     tick (logw (Launch (PollingInterval (WORKLOAD_POLL w)))
       (logw (Launch (LaunchingNodes N k ty))
          (w\<lparr>target_node_count := N, node_type_setting := ty, keep_running := k\<rparr>)))"

text \<open>The number of health checks and the ids of the stop requests in a trace.\<close>

fun health_requests :: "event list \<Rightarrow> nat" where
  "health_requests [] = 0"
| "health_requests (ReqHealth h # es) = Suc (health_requests es)"
| "health_requests (ev # es) = health_requests es"

fun stop_requests :: "event list \<Rightarrow> string list" where
  "stop_requests [] = []"
| "stop_requests (ReqStop i # es) = i # stop_requests es"
| "stop_requests (ev # es) = stop_requests es"

text \<open>What \<^verbatim>\<open>check_node_health\<close> returns for an exchange at tick \<open>t\<close>.\<close>

definition healthy_at :: "env \<Rightarrow> nat \<Rightarrow> string \<Rightarrow> bool" where
  "healthy_at e t host = (health_resp e t host = HealthStatus 200)"

text \<open>The tail of both removal paths: \<^verbatim>\<open>if keep_running: ensure_target_node_count()\<close>.\<close>

definition reconcile_if_kept :: "env \<Rightarrow> world \<Rightarrow> world" where
  "reconcile_if_kept e w = (if keep_running w then snd (ensure_target_node_count e w) else w)"

text \<open>The list call at the start of a cycle succeeds and its answer has the node's id.\<close>

definition listed :: "env \<Rightarrow> world \<Rightarrow> node_info \<Rightarrow> bool" where
  "listed e w ni =
     (ls_status_code (list_resp e (ticks w)) = 200 \<and>
      workload ni \<in> set (ls_json (list_resp e (ticks w))))"

text \<open>Providers for the examples: one whose health check fails once, one whose list call
  fails while the node is alive, one whose nodes do not answer and whose stop call is
  refused, one whose nodes do not answer and that cannot be reached for the stop call.\<close>

definition flaky_env :: env where
  "flaky_env = (steady_env [''w1''])
     \<lparr>health_resp := (\<lambda>t h. if t = 1 then HealthStatus 503 else HealthStatus 200)\<rparr>"

definition outage_env :: env where
  "outage_env = (steady_env [''w1''])
     \<lparr>list_resp := (\<lambda>t. \<lparr>ls_status_code = 503, ls_text = ''unavailable'', ls_json = [''w1'']\<rparr>)\<rparr>"

definition dead_env :: env where
  "dead_env = (steady_env [''w1''])
     \<lparr>health_resp := (\<lambda>t h. HealthException ''timeout''),
      stop_resp := (\<lambda>t i. Inr \<lparr>s_status_code = 500, s_text = ''no'', s_json = StopEmpty\<rparr>)\<rparr>"


text \<open>The stop exchange at tick \<open>t\<close> gives a response.\<close>

definition stop_returns :: "env \<Rightarrow> nat \<Rightarrow> string \<Rightarrow> bool" where
  "stop_returns e t i = (case stop_resp e t i of Inl err \<Rightarrow> False | Inr r \<Rightarrow> True)"

text \<open>The state in which line 258 calls \<^verbatim>\<open>remove_failed_node\<close>, after the list call, three
  failed checks and the log line of line 257.\<close>

definition failed_cycle_state :: "env \<Rightarrow> node_info \<Rightarrow> world \<Rightarrow> world" where
  "failed_cycle_state e ni w =
     logw (Monitor (FailedAllChecks (node ni)))
       (snd (retry_loop e (node ni) [0..<3] (snd (get_running_workloads e w))))"

definition node_one :: node_info where
  "node_one = example_node ''h1'' ''w1'' ''ollama_webui:fast''"

definition one_node_world :: "bool \<Rightarrow> world" where
  "one_node_world keep = fleet_world [node_one] 1 keep"


text \<open>The body of a successful stop response is empty or has a time of the stop that
  \<^verbatim>\<open>datetime.fromtimestamp\<close> accepts.\<close>

fun stopped_ok :: "env \<Rightarrow> stop_json \<Rightarrow> bool" where
  "stopped_ok e StopEmpty = True"
| "stopped_ok e (StopDict None r) = False"
| "stopped_ok e (StopDict (Some t) r) = fromtimestamp_ok e t"

text \<open>The stop exchanges for the nodes \<open>ns\<close>, one after the other from tick \<open>t\<close> on, all
  give a response, and each response with status 200 is as above.\<close>

fun stops_answer_well :: "env \<Rightarrow> nat \<Rightarrow> node_info list \<Rightarrow> bool" where
  "stops_answer_well e t [] = True"
| "stops_answer_well e t (n # ns) =
     (case stop_resp e t (workload n) of
        Inl err \<Rightarrow> False
      | Inr r \<Rightarrow> (s_status_code r \<noteq> 200 \<or> stopped_ok e (s_json r))
                 \<and> stops_answer_well e (Suc t) ns)"

text \<open>The line that reports the outcome of one stop: success for a response with status 200
  and a body, failure otherwise.\<close>

definition stop_line :: "stop_response \<Rightarrow> string \<Rightarrow> log_event" where
  "stop_line r host =
     (if s_status_code r = 200 \<and> truthy (Some (s_json r))
      then (case get_stopped (Some (s_json r)) of
              Some stopped_time \<Rightarrow>
                StopAll (SuccessfullyStopped host stopped_time (get_refund_amount (Some (s_json r))))
            | None \<Rightarrow> StopAll (FailedToStop host))
      else StopAll (FailedToStop host))"

text \<open>The lines for the nodes \<open>ns\<close>, up to the first exchange that raises.\<close>

fun stop_lines :: "env \<Rightarrow> nat \<Rightarrow> node_info list \<Rightarrow> log_event list" where
  "stop_lines e t [] = []"
| "stop_lines e t (n # ns) =
     (case stop_resp e t (workload n) of
        Inl err \<Rightarrow> []
      | Inr r \<Rightarrow> stop_line r (node n) # stop_lines e (Suc t) ns)"

fun is_outcome :: "log_event \<Rightarrow> bool" where
  "is_outcome (StopAll (SuccessfullyStopped h t r)) = True"
| "is_outcome (StopAll (FailedToStop h)) = True"
| "is_outcome l = False"

text \<open>A fleet of three, a provider that refuses to stop the second node, and a provider
  that cannot be reached for the stop of the second node.\<close>

definition three_nodes :: "node_info list" where
  "three_nodes = [example_node ''h1'' ''w1'' ''ollama_webui:fast'',
                  example_node ''h2'' ''w2'' ''ollama_webui:large'',
                  example_node ''h3'' ''w3'' ''ollama_webui:fast'']"

definition refusing_env :: env where
  "refusing_env = (steady_env [])
     \<lparr>stop_resp := (\<lambda>t i. if i = ''w2''
                           then Inr \<lparr>s_status_code = 500, s_text = ''busy'', s_json = StopEmpty\<rparr>
                           else Inr \<lparr>s_status_code = 200, s_text = [],
                                     s_json = StopDict (Some 500) (Some 7)\<rparr>)\<rparr>"

definition unreachable_env :: env where
  "unreachable_env = (steady_env [])
     \<lparr>stop_resp := (\<lambda>t i. if i = ''w2''
                           then Inl (RequestException ''connection refused'')
                           else Inr \<lparr>s_status_code = 200, s_text = [],
                                     s_json = StopDict (Some 500) (Some 7)\<rparr>)\<rparr>"

text \<open>The monitor has returned, or it is about to test a condition that is false.\<close>

definition quiet :: "pc \<times> world \<Rightarrow> bool" where
  "quiet s = (fst s = Returned \<or> (fst s = AtLoopTest \<and> \<not> should_monitor (snd s)))"

text \<open>The launch whose clock reading is taken at tick \<open>t\<close> is answered with status 200.\<close>

definition launch_ok :: "env \<Rightarrow> nat \<Rightarrow> string \<Rightarrow> bool" where
  "launch_ok e t ty = (l_status_code (launch_resp e (Suc t) ty (time_at e t + 3600)) = 200)"

text \<open>A provider that refuses the launch request of tick \<open>k\<close> and accepts every other.\<close>

definition failing_launch_env :: "nat \<Rightarrow> env" where
  "failing_launch_env k = (steady_env [])
     \<lparr>launch_resp := (\<lambda>t ty ex. if t = k
          then \<lparr>l_status_code = 500, l_text = ''no capacity'', l_node = [], l_workload = [],
                l_rest = []\<rparr>
          else \<lparr>l_status_code = 200, l_text = [], l_node = ''new-host'',
                l_workload = ''new-id'', l_rest = []\<rparr>)\<rparr>"

text \<open>The counter of the specification, read off the log of the monitor of host \<open>h\<close>: a
  cycle in which all checks fail adds one, a successful check sets it to zero.\<close>

definition cycle_counter :: "string \<Rightarrow> log_event \<Rightarrow> nat \<Rightarrow> nat" where
  "cycle_counter h l c =
     (if l = Monitor (FailedAllChecks h) then Suc c
      else if l = Monitor (NodeHealthy h) \<or> l = Monitor (NodeUp h) then 0
      else c)"

definition consecutive_failures :: "string \<Rightarrow> log_event list \<Rightarrow> nat" where
  "consecutive_failures h ls = fold (cycle_counter h) ls 0"

text \<open>Every node of the fleet has its counter, and the counter is zero.\<close>

definition zeroed :: "world \<Rightarrow> bool" where
  "zeroed w = (\<forall>m \<in> set (active_nodes w). node_failures w (node m) = Some 0)"

text \<open>The example world with the counter that the launch has set for its node.\<close>

definition tracked_world :: world where
  "tracked_world = (one_node_world False)\<lparr>node_failures := [''h1'' \<mapsto> 0]\<rparr>"

text \<open>The same world with another number in the counter, to see what a cycle does to it.\<close>

definition marked_world :: world where
  "marked_world = (one_node_world False)\<lparr>node_failures := [''h1'' \<mapsto> 5]\<rparr>"

section \<open>How the provider calls change the state\<close>

lemmas upd_defs = tick_def emit_def logw_def

lemma launch_requests_append [simp]:
  "launch_requests (xs @ ys) = launch_requests xs @ launch_requests ys"
  by (induction xs rule: launch_requests.induct) simp_all

lemma launch_workload_frame:
  "ticks (snd (launch_workload e ty w)) = ticks w + 2"
  "trace (snd (launch_workload e ty w)) = trace w @ [ReqLaunch ty (time_at e (ticks w) + 3600)]"
  "active_nodes (snd (launch_workload e ty w)) = active_nodes w"
  "node_failures (snd (launch_workload e ty w)) = node_failures w"
  "node_threads (snd (launch_workload e ty w)) = node_threads w"
  "should_monitor (snd (launch_workload e ty w)) = should_monitor w"
  "target_node_count (snd (launch_workload e ty w)) = target_node_count w"
  "node_type_setting (snd (launch_workload e ty w)) = node_type_setting w"
  "keep_running (snd (launch_workload e ty w)) = keep_running w"
  "WORKLOAD_POLL (snd (launch_workload e ty w)) = WORKLOAD_POLL w"
  by (simp_all add: launch_workload_def Let_def upd_defs)

lemma launch_workload_result:
  "fst (launch_workload e ty w) =
     (let expires = time_at e (ticks w) + 3600;
          response = launch_resp e (Suc (ticks w)) ty expires
      in if l_status_code response = 200
         then Some \<lparr>node = l_node response, workload = l_workload response, wtype = ty,
                     expires = expires, rest = l_rest response\<rparr>
         else None)"
  by (simp add: launch_workload_def Let_def upd_defs)

lemma start_node_monitoring_frame:
  "ticks (start_node_monitoring r w) = ticks w"
  "trace (start_node_monitoring r w) = trace w @ [ThreadStart r]"
  "active_nodes (start_node_monitoring r w) = active_nodes w"
  "node_failures (start_node_monitoring r w) = node_failures w"
  "should_monitor (start_node_monitoring r w) = should_monitor w"
  "target_node_count (start_node_monitoring r w) = target_node_count w"
  "node_type_setting (start_node_monitoring r w) = node_type_setting w"
  "keep_running (start_node_monitoring r w) = keep_running w"
  "WORKLOAD_POLL (start_node_monitoring r w) = WORKLOAD_POLL w"
  by (simp_all add: start_node_monitoring_def Let_def upd_defs)

section \<open>The sequence of requested types\<close>

lemma chosen_type:
  "(if ty = ''alternate'' then alternate_type i else ''ollama_webui:'' @ ty) = type_policy ty i"
  by (simp add: alternate_type_def type_policy_def even_iff_mod_2_eq_zero)

lemma ensure_loop_launches:
  "launch_requests (trace (ensure_loop e c n is w)) =
     launch_requests (trace w) @ map (\<lambda>i. type_policy (node_type_setting w) (c + i)) is"
proof (induction "is" arbitrary: w)
  case Nil
  show ?case by simp
next
  case (Cons i "is")
  show ?case
    by (simp add: Let_def split_beta Cons.IH launch_workload_frame start_node_monitoring_frame
          upd_defs chosen_type del: append.simps split: option.split)
qed

lemma map_add_upt: "map (\<lambda>i. f (c + i)) [0..<n] = map f [c..<c + n]"
  by (induction n) simp_all

lemma ensure_launches:
  "launch_requests (trace (snd (ensure_target_node_count e w))) =
     launch_requests (trace w) @
     (if keep_running w
      then map (type_policy (node_type_setting w))
             [length (active_nodes w)..<nat (target_node_count w)]
      else [])"
proof (cases "keep_running w \<and> int (length (active_nodes w)) < target_node_count w")
  case True
  then have eq: "length (active_nodes w) + nat (target_node_count w - int (length (active_nodes w)))
     = nat (target_node_count w)" by linarith
  from True show ?thesis
    by (simp add: ensure_target_node_count_def Let_def ensure_loop_launches upd_defs map_add_upt eq)
next
  case False
  then show ?thesis
    by (auto simp: ensure_target_node_count_def Let_def)
qed

lemma launch_loop_launches:
  "launch_requests (trace (snd (launch_loop e N ty is succ w))) =
     launch_requests (trace w) @ map (type_policy ty) is"
proof (induction "is" arbitrary: succ w)
  case Nil
  show ?case by simp
next
  case (Cons i "is")
  show ?case
    by (simp add: Let_def split_beta Cons.IH launch_workload_frame
          upd_defs chosen_type del: append.simps split: option.split)
qed

lemma summary_frame:
  "trace (summary k ns w) = trace w"
  "keep_running (summary k ns w) = keep_running w"
  "target_node_count (summary k ns w) = target_node_count w"
  "node_type_setting (summary k ns w) = node_type_setting w"
  "active_nodes (summary k ns w) = active_nodes w"
  "ticks (summary k ns w) = ticks w"
  by (induction k ns w rule: summary.induct) (simp_all add: upd_defs)

lemma start_all_frame:
  "launch_requests (trace (start_all ns w)) = launch_requests (trace w)"
  "keep_running (start_all ns w) = keep_running w"
  "target_node_count (start_all ns w) = target_node_count w"
  "node_type_setting (start_all ns w) = node_type_setting w"
  "active_nodes (start_all ns w) = active_nodes w"
  "ticks (start_all ns w) = ticks w"
  by (induction ns w rule: start_all.induct) (simp_all add: start_node_monitoring_frame)

lemma launch_loop_frame_conj:
  "keep_running (snd (launch_loop e N ty is succ w)) = keep_running w \<and>
   target_node_count (snd (launch_loop e N ty is succ w)) = target_node_count w \<and>
   node_type_setting (snd (launch_loop e N ty is succ w)) = node_type_setting w \<and>
   ticks (snd (launch_loop e N ty is succ w)) = ticks w + 2 * length is"
proof (induction "is" arbitrary: succ w)
  case Nil
  show ?case by simp
next
  case (Cons i "is")
  show ?case
    by (simp add: Let_def split_beta Cons.IH launch_workload_frame upd_defs chosen_type
          split: option.split)
qed

lemmas launch_loop_frame =
  launch_loop_frame_conj [THEN conjunct1]
  launch_loop_frame_conj [THEN conjunct2, THEN conjunct1]
  launch_loop_frame_conj [THEN conjunct2, THEN conjunct2, THEN conjunct1]
  launch_loop_frame_conj [THEN conjunct2, THEN conjunct2, THEN conjunct2]

lemma launch_nodes_unfold:
  "launch_nodes e N k ty w =
     (let r = launch_loop e N ty [0..<nat N] [] (launch_start N k ty w);
          w6 = logw (Launch (Successful (length (fst r))))
                 (logw (Launch (Requested N)) (logw (Launch LaunchSummary) (snd r)));
          w8 = (summary 0 (fst r) w6)\<lparr>active_nodes := fst r\<rparr>;
          w9 = start_all (active_nodes w8) w8
      in if keep_running w9 \<and> int (length (fst r)) < N
         then snd (ensure_target_node_count e w9) else w9)"
  by (simp add: launch_nodes_def Let_def split_beta launch_start_def upd_defs)

lemma launch_start_frame:
  "trace (launch_start N k ty w) = trace w"
  "keep_running (launch_start N k ty w) = k"
  "target_node_count (launch_start N k ty w) = N"
  "node_type_setting (launch_start N k ty w) = ty"
  "ticks (launch_start N k ty w) = Suc (ticks w)"
  by (simp_all add: launch_start_def upd_defs)

lemma launch_nodes_launches:
  "launch_requests (trace (launch_nodes e N k ty w)) =
     launch_requests (trace w) @ map (type_policy ty) [0..<nat N] @
     (if k then map (type_policy ty)
                  [length (fst (launch_loop e N ty [0..<nat N] [] (launch_start N k ty w)))..<nat N]
      else [])"
  unfolding launch_nodes_unfold
  by (simp add: Let_def ensure_launches start_all_frame summary_frame upd_defs
        launch_loop_frame launch_start_frame launch_loop_launches)

text \<open>
  Claim C2. With the alternating policy the type requested at launch index \<open>i\<close> is the
  fast one when \<open>i\<close> is even and the large one when \<open>i\<close> is odd; with a fixed policy it
  is the configured type at every index. The initial launch requests the types of the
  indices \<open>0, \<dots>, N - 1\<close> in this order, whatever the provider answers; a reconciliation
  at fleet size \<open>c\<close> below the target requests the types of the indices from \<open>c\<close> up to
  the target, not from zero. The launches that \<^verbatim>\<open>launch_nodes\<close> sends after the first
  \<open>N\<close> are those of its closing reconciliation.
\<close>

theorem launch_types_follow_policy:
  "type_policy ''alternate'' i = (if even i then ''ollama_webui:fast'' else ''ollama_webui:large'')
   \<and> type_policy ty i = (if ty = ''alternate'' then type_policy ''alternate'' i
                          else ''ollama_webui:'' @ ty)
   \<and> (\<exists>c. launch_requests (trace (launch_nodes e N k ty w)) =
          launch_requests (trace w) @ map (type_policy ty) [0..<nat N] @
          (if k then map (type_policy ty) [c..<nat N] else []))
   \<and> launch_requests (trace (snd (ensure_target_node_count e w))) =
       launch_requests (trace w) @
       (if keep_running w
        then map (type_policy (node_type_setting w))
               [length (active_nodes w)..<nat (target_node_count w)]
        else [])"
proof -
  have "\<exists>c. launch_requests (trace (launch_nodes e N k ty w)) =
          launch_requests (trace w) @ map (type_policy ty) [0..<nat N] @
          (if k then map (type_policy ty) [c..<nat N] else [])"
    using launch_nodes_launches [of e N k ty w] by blast
  then show ?thesis
    using ensure_launches [of e w] by (simp add: type_policy_def)
qed

section \<open>Reconciliation at the target\<close>

text \<open>
  Claim C6. \<^verbatim>\<open>ensure_target_node_count\<close> does nothing unless \<open>keep_running\<close> is set, and
  nothing when the fleet has the target size or more: it returns the size of the fleet
  and leaves the whole state as it was, so no launch is requested and \<open>active_nodes\<close> is
  unchanged. Called again on the state it returned, it does nothing again.
\<close>

theorem reconcile_noop:
  assumes "\<not> keep_running w \<or> target_node_count w \<le> int (length (active_nodes w))"
  shows "ensure_target_node_count e w = (int (length (active_nodes w)), w)
         \<and> ensure_target_node_count e (snd (ensure_target_node_count e w)) =
             ensure_target_node_count e w"
  using assms by (auto simp: ensure_target_node_count_def Let_def)

theorem reconcile_noop_witness:
  "ensure_target_node_count (steady_env [])
     (fleet_world [example_node ''h1'' ''w1'' ''ollama_webui:fast''] 1 True) =
   (1, fleet_world [example_node ''h1'' ''w1'' ''ollama_webui:fast''] 1 True)
   \<and> keep_running (fleet_world [example_node ''h1'' ''w1'' ''ollama_webui:fast''] 1 True)"
  using reconcile_noop [of "fleet_world [example_node ''h1'' ''w1'' ''ollama_webui:fast''] 1 True"
                           "steady_env []"]
  by (simp add: fleet_world_def initial_world_def)

section \<open>The lease window\<close>

text \<open>
  Claim C10. Every launch request is sent by \<^verbatim>\<open>launch_workload\<close>, and the expiration it
  sends, which is also the one stored with the node, is the clock value it has just read
  plus 3600, in every state and so under every command line. The option \<^verbatim>\<open>--runtime\<close> is
  parsed and never read: a run of \<^verbatim>\<open>main\<close> does the same for every value of it.
\<close>

theorem expiration_is_launch_time_plus_3600:
  "trace (snd (launch_workload e ty w)) = trace w @ [ReqLaunch ty (time_at e (ticks w) + 3600)]
   \<and> map_option expires (fst (launch_workload e ty w)) \<in>
       {None, Some (time_at e (ticks w) + 3600)}
   \<and> main e (a\<lparr>runtime := r\<rparr>) w = main e a w"
  by (simp add: launch_workload_frame launch_workload_result Let_def main_def main_launch_def
        main_interrupt_def)

lemma health_requests_append [simp]:
  "health_requests (xs @ ys) = health_requests xs + health_requests ys"
  by (induction xs rule: health_requests.induct) simp_all

lemma stop_requests_append [simp]:
  "stop_requests (xs @ ys) = stop_requests xs @ stop_requests ys"
  by (induction xs rule: stop_requests.induct) simp_all

lemma check_node_health_result:
  "fst (check_node_health e h w) = healthy_at e (ticks w) h"
  by (simp add: check_node_health_def healthy_at_def Let_def split: health_response.split)

lemma check_node_health_frame:
  "ticks (snd (check_node_health e h w)) = Suc (ticks w)"
  "trace (snd (check_node_health e h w)) = trace w @ [ReqHealth h]"
  "active_nodes (snd (check_node_health e h w)) = active_nodes w"
  "node_failures (snd (check_node_health e h w)) = node_failures w"
  "node_threads (snd (check_node_health e h w)) = node_threads w"
  "should_monitor (snd (check_node_health e h w)) = should_monitor w"
  "target_node_count (snd (check_node_health e h w)) = target_node_count w"
  "node_type_setting (snd (check_node_health e h w)) = node_type_setting w"
  "keep_running (snd (check_node_health e h w)) = keep_running w"
  "WORKLOAD_POLL (snd (check_node_health e h w)) = WORKLOAD_POLL w"
  by (simp_all add: check_node_health_def Let_def upd_defs split: health_response.split)

lemma get_running_workloads_result:
  "fst (get_running_workloads e w) =
     (if ls_status_code (list_resp e (ticks w)) = 200 then ls_json (list_resp e (ticks w)) else [])"
  by (simp add: get_running_workloads_def Let_def)

lemma get_running_workloads_frame:
  "ticks (snd (get_running_workloads e w)) = Suc (ticks w)"
  "trace (snd (get_running_workloads e w)) = trace w @ [ReqList]"
  "active_nodes (snd (get_running_workloads e w)) = active_nodes w"
  "node_failures (snd (get_running_workloads e w)) = node_failures w"
  "node_threads (snd (get_running_workloads e w)) = node_threads w"
  "should_monitor (snd (get_running_workloads e w)) = should_monitor w"
  "target_node_count (snd (get_running_workloads e w)) = target_node_count w"
  "node_type_setting (snd (get_running_workloads e w)) = node_type_setting w"
  "keep_running (snd (get_running_workloads e w)) = keep_running w"
  "WORKLOAD_POLL (snd (get_running_workloads e w)) = WORKLOAD_POLL w"
  by (simp_all add: get_running_workloads_def Let_def upd_defs)

lemma stop_workload_frame:
  "ticks (snd (stop_workload e i w)) = Suc (ticks w)"
  "trace (snd (stop_workload e i w)) = trace w @ [ReqStop i]"
  "active_nodes (snd (stop_workload e i w)) = active_nodes w"
  "node_failures (snd (stop_workload e i w)) = node_failures w"
  "node_threads (snd (stop_workload e i w)) = node_threads w"
  "should_monitor (snd (stop_workload e i w)) = should_monitor w"
  "target_node_count (snd (stop_workload e i w)) = target_node_count w"
  "node_type_setting (snd (stop_workload e i w)) = node_type_setting w"
  "keep_running (snd (stop_workload e i w)) = keep_running w"
  "WORKLOAD_POLL (snd (stop_workload e i w)) = WORKLOAD_POLL w"
  by (simp_all add: stop_workload_def Let_def upd_defs split: sum.split)

section \<open>One monitoring cycle\<close>

lemma retry_loop_frame_conj:
  "active_nodes (snd (retry_loop e h rs w)) = active_nodes w \<and>
   node_failures (snd (retry_loop e h rs w)) = node_failures w \<and>
   should_monitor (snd (retry_loop e h rs w)) = should_monitor w \<and>
   target_node_count (snd (retry_loop e h rs w)) = target_node_count w \<and>
   node_type_setting (snd (retry_loop e h rs w)) = node_type_setting w \<and>
   keep_running (snd (retry_loop e h rs w)) = keep_running w \<and>
   WORKLOAD_POLL (snd (retry_loop e h rs w)) = WORKLOAD_POLL w \<and>
   stop_requests (trace (snd (retry_loop e h rs w))) = stop_requests (trace w) \<and>
   launch_requests (trace (snd (retry_loop e h rs w))) = launch_requests (trace w)"
proof (induction rs arbitrary: w)
  case Nil
  show ?case by simp
next
  case (Cons r rs)
  show ?case
    by (simp add: split_beta Cons.IH check_node_health_frame upd_defs)
qed

lemma retry_loop_three:
  "fst (retry_loop e h [0..<3] w) =
     (healthy_at e (ticks w) h \<or> healthy_at e (ticks w + 1) h \<or> healthy_at e (ticks w + 2) h)"
  "health_requests (trace (snd (retry_loop e h [0..<3] w))) =
     health_requests (trace w) +
     (if healthy_at e (ticks w) h then 1 else if healthy_at e (ticks w + 1) h then 2 else 3)"
proof -
  have three: "[0..<3] = [0, 1, 2]" by (simp add: upt_rec)
  show "fst (retry_loop e h [0..<3] w) =
     (healthy_at e (ticks w) h \<or> healthy_at e (ticks w + 1) h \<or> healthy_at e (ticks w + 2) h)"
    unfolding three
    by (simp add: split_beta check_node_health_frame check_node_health_result upd_defs)
  show "health_requests (trace (snd (retry_loop e h [0..<3] w))) =
     health_requests (trace w) +
     (if healthy_at e (ticks w) h then 1 else if healthy_at e (ticks w + 1) h then 2 else 3)"
    unfolding three
    by (simp add: split_beta check_node_health_frame check_node_health_result upd_defs)
qed

lemma ensure_loop_frame_conj:
  "keep_running (ensure_loop e c n is w) = keep_running w \<and>
   target_node_count (ensure_loop e c n is w) = target_node_count w \<and>
   node_type_setting (ensure_loop e c n is w) = node_type_setting w \<and>
   should_monitor (ensure_loop e c n is w) = should_monitor w \<and>
   WORKLOAD_POLL (ensure_loop e c n is w) = WORKLOAD_POLL w \<and>
   stop_requests (trace (ensure_loop e c n is w)) = stop_requests (trace w) \<and>
   health_requests (trace (ensure_loop e c n is w)) = health_requests (trace w) \<and>
   ticks (ensure_loop e c n is w) = ticks w + 2 * length is"
proof (induction "is" arbitrary: w)
  case Nil
  show ?case by simp
next
  case (Cons i "is")
  show ?case
    by (simp add: Let_def split_beta Cons.IH launch_workload_frame start_node_monitoring_frame
          upd_defs split: option.split)
qed

lemma ensure_frame_conj:
  "keep_running (snd (ensure_target_node_count e w)) = keep_running w \<and>
   target_node_count (snd (ensure_target_node_count e w)) = target_node_count w \<and>
   node_type_setting (snd (ensure_target_node_count e w)) = node_type_setting w \<and>
   should_monitor (snd (ensure_target_node_count e w)) = should_monitor w \<and>
   WORKLOAD_POLL (snd (ensure_target_node_count e w)) = WORKLOAD_POLL w \<and>
   stop_requests (trace (snd (ensure_target_node_count e w))) = stop_requests (trace w) \<and>
   health_requests (trace (snd (ensure_target_node_count e w))) = health_requests (trace w)"
  by (simp add: ensure_target_node_count_def Let_def ensure_loop_frame_conj upd_defs)

lemmas ensure_frame =
  ensure_frame_conj [THEN conjunct1]
  ensure_frame_conj [THEN conjunct2, THEN conjunct1]
  ensure_frame_conj [THEN conjunct2, THEN conjunct2, THEN conjunct1]
  ensure_frame_conj [THEN conjunct2, THEN conjunct2, THEN conjunct2, THEN conjunct1]
  ensure_frame_conj [THEN conjunct2, THEN conjunct2, THEN conjunct2, THEN conjunct2, THEN conjunct1]
  ensure_frame_conj [THEN conjunct2, THEN conjunct2, THEN conjunct2, THEN conjunct2, THEN conjunct2,
    THEN conjunct1]
  ensure_frame_conj [THEN conjunct2, THEN conjunct2, THEN conjunct2, THEN conjunct2, THEN conjunct2,
    THEN conjunct2]

lemmas retry_loop_frame =
  retry_loop_frame_conj [THEN conjunct1]
  retry_loop_frame_conj [THEN conjunct2, THEN conjunct1]
  retry_loop_frame_conj [THEN conjunct2, THEN conjunct2, THEN conjunct1]
  retry_loop_frame_conj [THEN conjunct2, THEN conjunct2, THEN conjunct2, THEN conjunct1]
  retry_loop_frame_conj [THEN conjunct2, THEN conjunct2, THEN conjunct2, THEN conjunct2, THEN conjunct1]
  retry_loop_frame_conj [THEN conjunct2, THEN conjunct2, THEN conjunct2, THEN conjunct2, THEN conjunct2,
    THEN conjunct1]
  retry_loop_frame_conj [THEN conjunct2, THEN conjunct2, THEN conjunct2, THEN conjunct2, THEN conjunct2,
    THEN conjunct2, THEN conjunct1]
  retry_loop_frame_conj [THEN conjunct2, THEN conjunct2, THEN conjunct2, THEN conjunct2, THEN conjunct2,
    THEN conjunct2, THEN conjunct2, THEN conjunct1]
  retry_loop_frame_conj [THEN conjunct2, THEN conjunct2, THEN conjunct2, THEN conjunct2, THEN conjunct2,
    THEN conjunct2, THEN conjunct2, THEN conjunct2]



lemma monitor_cycle_absent:
  assumes "workload ni \<notin> set (fst (get_running_workloads e w))"
  shows "\<exists>w'. monitor_cycle e ni w = (Break, reconcile_if_kept e w')
      \<and> active_nodes w' = filter (\<lambda>n. workload n \<noteq> workload ni) (active_nodes w)
      \<and> trace w' = trace w @ [ReqList]
      \<and> keep_running w' = keep_running w
      \<and> target_node_count w' = target_node_count w
      \<and> node_type_setting w' = node_type_setting w
      \<and> node_failures w' = node_failures w
      \<and> should_monitor w' = should_monitor w
      \<and> ticks w' = Suc (ticks w)"
proof -
  define w1 where "w1 = snd (get_running_workloads e w)"
  define w3 where "w3 = (logw (Monitor (NoLongerInWorkloads (node ni) (workload ni))) w1)
     \<lparr>active_nodes := filter (\<lambda>n. workload n \<noteq> workload ni) (active_nodes w1)\<rparr>"
  have r: "monitor_cycle e ni w = (Break, reconcile_if_kept e w3)"
    using assms
    by (simp add: monitor_cycle_def reconcile_if_kept_def Let_def split_beta w3_def w1_def upd_defs)
  have "active_nodes w3 = filter (\<lambda>n. workload n \<noteq> workload ni) (active_nodes w)"
    "trace w3 = trace w @ [ReqList]"
    "keep_running w3 = keep_running w"
    "target_node_count w3 = target_node_count w"
    "node_type_setting w3 = node_type_setting w"
    "node_failures w3 = node_failures w"
    "should_monitor w3 = should_monitor w"
    "ticks w3 = Suc (ticks w)"
    by (simp_all add: w3_def w1_def get_running_workloads_frame upd_defs)
  with r show ?thesis by blast
qed

lemma monitor_cycle_listed:
  assumes "workload ni \<in> set (fst (get_running_workloads e w))"
  shows "monitor_cycle e ni w =
     (let r = retry_loop e (node ni) [0..<3] (snd (get_running_workloads e w))
      in if fst r
         then (Continue, emit (Sleep (WORKLOAD_POLL w)) (logw (Monitor (NodeHealthy (node ni))) (snd r)))
         else (case remove_failed_node e ni (failed_cycle_state e ni w) of
                 Inl (err, w3) \<Rightarrow> (Raise err, w3)
               | Inr w3 \<Rightarrow> (Break, w3)))"
  using assms
  by (simp add: monitor_cycle_def Let_def split_beta failed_cycle_state_def logw_def
        retry_loop_frame get_running_workloads_frame)

lemma listed_iff: "listed e w ni = (workload ni \<in> set (fst (get_running_workloads e w)))"
  by (simp add: listed_def get_running_workloads_result)

lemma reconcile_if_kept_frame:
  "stop_requests (trace (reconcile_if_kept e w)) = stop_requests (trace w)"
  "health_requests (trace (reconcile_if_kept e w)) = health_requests (trace w)"
  "keep_running (reconcile_if_kept e w) = keep_running w"
  "\<not> keep_running w \<Longrightarrow> reconcile_if_kept e w = w"
  by (simp_all add: reconcile_if_kept_def ensure_frame)

lemma plus3: "n + 3 = Suc (Suc (Suc n))" "n + 4 = Suc (Suc (Suc (Suc n)))"
  by simp_all

lemma failed_cycle_state_frame:
  "active_nodes (failed_cycle_state e ni w) = active_nodes w"
  "node_failures (failed_cycle_state e ni w) = node_failures w"
  "keep_running (failed_cycle_state e ni w) = keep_running w"
  "stop_requests (trace (failed_cycle_state e ni w)) = stop_requests (trace w)"
  "launch_requests (trace (failed_cycle_state e ni w)) = launch_requests (trace w)"
  by (simp_all add: failed_cycle_state_def retry_loop_frame get_running_workloads_frame upd_defs)

lemma failed_cycle_state_checks:
  "fst (retry_loop e (node ni) [0..<3] (snd (get_running_workloads e w))) =
     (healthy_at e (ticks w + 1) (node ni) \<or> healthy_at e (ticks w + 2) (node ni)
      \<or> healthy_at e (ticks w + 3) (node ni))"
  "health_requests (trace (failed_cycle_state e ni w)) =
     health_requests (trace w) +
       (if healthy_at e (ticks w + 1) (node ni) then 1
        else if healthy_at e (ticks w + 2) (node ni) then 2 else 3)"
  by (simp_all add: failed_cycle_state_def retry_loop_three get_running_workloads_frame upd_defs
        plus3)


lemma cycle_healthy:
  assumes l: "listed e w ni"
    and h: "healthy_at e (ticks w + 1) (node ni) \<or> healthy_at e (ticks w + 2) (node ni)
            \<or> healthy_at e (ticks w + 3) (node ni)"
  shows "fst (monitor_cycle e ni w) = Continue"
    "active_nodes (snd (monitor_cycle e ni w)) = active_nodes w"
    "stop_requests (trace (snd (monitor_cycle e ni w))) = stop_requests (trace w)"
    "launch_requests (trace (snd (monitor_cycle e ni w))) = launch_requests (trace w)"
    "last (logged (snd (monitor_cycle e ni w))) = Monitor (NodeHealthy (node ni))"
    "last (trace (snd (monitor_cycle e ni w))) = Sleep (WORKLOAD_POLL w)"
  using h
  by (simp_all add: monitor_cycle_listed [OF l [unfolded listed_iff]] Let_def retry_loop_three
        retry_loop_frame get_running_workloads_frame upd_defs plus3)





lemma cycle_absent:
  assumes "\<not> listed e w ni"
  shows "fst (monitor_cycle e ni w) = Break"
    "stop_requests (trace (snd (monitor_cycle e ni w))) = stop_requests (trace w)"
    "health_requests (trace (snd (monitor_cycle e ni w))) = health_requests (trace w)"
    "\<exists>w'. snd (monitor_cycle e ni w) = reconcile_if_kept e w'
        \<and> active_nodes w' = filter (\<lambda>n. workload n \<noteq> workload ni) (active_nodes w)
        \<and> keep_running w' = keep_running w"
proof -
  obtain w' where w': "monitor_cycle e ni w = (Break, reconcile_if_kept e w')"
    "active_nodes w' = filter (\<lambda>n. workload n \<noteq> workload ni) (active_nodes w)"
    "trace w' = trace w @ [ReqList]"
    "keep_running w' = keep_running w"
    using monitor_cycle_absent [OF assms [unfolded listed_iff]] by blast
  show "fst (monitor_cycle e ni w) = Break" by (simp add: w')
  show "stop_requests (trace (snd (monitor_cycle e ni w))) = stop_requests (trace w)"
    by (simp add: w' reconcile_if_kept_frame)
  show "health_requests (trace (snd (monitor_cycle e ni w))) = health_requests (trace w)"
    by (simp add: w' reconcile_if_kept_frame)
  show "\<exists>w'. snd (monitor_cycle e ni w) = reconcile_if_kept e w'
        \<and> active_nodes w' = filter (\<lambda>n. workload n \<noteq> workload ni) (active_nodes w)
        \<and> keep_running w' = keep_running w"
    using w' by auto
qed




lemma stop_returns_iff:
  "stop_returns e t i = (\<exists>r. stop_resp e t i = Inr r)"
  "(\<not> stop_returns e t i) = (\<exists>err. stop_resp e t i = Inl err)"
  by (cases "stop_resp e t i"; simp add: stop_returns_def)+



text \<open>
  Claim C1 says that a failed list call does not make the monitor drop the node. The code
  does drop it: \<^verbatim>\<open>get_running_workloads\<close> answers a failure with the empty list, in
  which no id occurs, so the cycle takes the branch for a node that has disappeared:
  without one health check it filters the node out of \<open>active_nodes\<close>, reconciles if
  \<open>keep_running\<close> is set, and ends the monitor.
\<close>

theorem list_failure_taken_for_absence:
  assumes "ls_status_code (list_resp e (ticks w)) \<noteq> 200"
  shows "fst (monitor_cycle e ni w) = Break
   \<and> health_requests (trace (snd (monitor_cycle e ni w))) = health_requests (trace w)
   \<and> (\<exists>w'. snd (monitor_cycle e ni w) = reconcile_if_kept e w'
         \<and> active_nodes w' = filter (\<lambda>n. workload n \<noteq> workload ni) (active_nodes w))
   \<and> (\<not> keep_running w \<longrightarrow>
        active_nodes (snd (monitor_cycle e ni w)) =
          filter (\<lambda>n. workload n \<noteq> workload ni) (active_nodes w))"
proof -
  have nl: "\<not> listed e w ni" using assms by (simp add: listed_def)
  note ab = cycle_absent [OF nl]
  from ab(4) obtain w' where w': "snd (monitor_cycle e ni w) = reconcile_if_kept e w'"
    "active_nodes w' = filter (\<lambda>n. workload n \<noteq> workload ni) (active_nodes w)"
    "keep_running w' = keep_running w" by blast
  have "active_nodes (snd (monitor_cycle e ni w)) =
          filter (\<lambda>n. workload n \<noteq> workload ni) (active_nodes w)" if "\<not> keep_running w"
    using that w' by (simp add: reconcile_if_kept_frame)
  moreover have "\<exists>w'. snd (monitor_cycle e ni w) = reconcile_if_kept e w'
         \<and> active_nodes w' = filter (\<lambda>n. workload n \<noteq> workload ni) (active_nodes w)"
    using w' by blast
  ultimately show ?thesis using ab(1) ab(3) by simp
qed

theorem list_failure_taken_for_absence_witness:
  "ls_status_code (list_resp outage_env 0) = 503
   \<and> healthy_at outage_env 1 ''h1''
   \<and> fst (monitor_cycle outage_env node_one (one_node_world False)) = Break
   \<and> active_nodes (snd (monitor_cycle outage_env node_one (one_node_world False))) = []"
proof -
  have w: "ticks (one_node_world False) = 0" "active_nodes (one_node_world False) = [node_one]"
    "\<not> keep_running (one_node_world False)"
    by (simp_all add: one_node_world_def fleet_world_def initial_world_def)
  have s: "ls_status_code (list_resp outage_env 0) = 503"
    by (simp add: outage_env_def)
  have h: "\<And>t h. healthy_at outage_env t h"
    by (simp add: healthy_at_def outage_env_def steady_env_def)
  show ?thesis
    using list_failure_taken_for_absence [of outage_env "one_node_world False" node_one] w s h
    by simp
qed

section \<open>The two ways a monitor ends its node\<close>




section \<open>Stopping every node\<close>

lemma stop_workload_result:
  "fst (stop_workload e i w) =
     (case stop_resp e (ticks w) i of
        Inl err \<Rightarrow> Inl err
      | Inr r \<Rightarrow> Inr (if s_status_code r = 200 then Some (s_json r) else None))"
  by (simp add: stop_workload_def Let_def split: sum.split)

lemma stop_workload_logged:
  "\<exists>ls. logged (snd (stop_workload e i w)) = logged w @ ls \<and> filter is_outcome ls = []"
  by (simp add: stop_workload_def Let_def upd_defs split: sum.split)

text \<open>The part of the claim that holds: when every stop exchange gives a response, and the
  successful ones a time that can be formatted, the loop sends a stop request for every
  node, whatever the status codes are, logs one outcome for each, and returns.\<close>

lemma stop_all_loop_ok:
  "stops_answer_well e (ticks w) ns \<Longrightarrow>
   \<exists>w' ls. stop_all_loop e ns w = Inr w'
     \<and> trace w' = trace w @ map (\<lambda>n. ReqStop (workload n)) ns
     \<and> logged w' = logged w @ ls
     \<and> filter is_outcome ls = stop_lines e (ticks w) ns
     \<and> active_nodes w' = active_nodes w
     \<and> ticks w' = ticks w + length ns"
proof (induction ns arbitrary: w)
  case Nil
  show ?case by simp
next
  case (Cons n ns)
  from Cons.prems obtain r where r: "stop_resp e (ticks w) (workload n) = Inr r"
    by (cases "stop_resp e (ticks w) (workload n)") simp_all
  define w1 where "w1 = logw (StopAll (Stopping (node n) (workload n))) w"
  define w2 where "w2 = snd (stop_workload e (workload n) w1)"
  define w3 where "w3 = logw (stop_line r (node n)) w2"
  have t1: "ticks w1 = ticks w" by (simp add: w1_def upd_defs)
  have res: "fst (stop_workload e (workload n) w1) =
     Inr (if s_status_code r = 200 then Some (s_json r) else None)"
    by (simp add: stop_workload_result t1 r)
  from Cons.prems have ok: "s_status_code r \<noteq> 200 \<or> stopped_ok e (s_json r)"
    and rest: "stops_answer_well e (Suc (ticks w)) ns"
    by (simp_all add: r)
  have step: "stop_all_loop e (n # ns) w = stop_all_loop e ns w3"
  proof (cases "s_status_code r = 200")
    case False
    then show ?thesis
      by (simp add: Let_def split_beta res w1_def [symmetric] w2_def [symmetric] w3_def stop_line_def)
  next
    case True
    with ok have nl: "stopped_ok e (s_json r)" by simp
    show ?thesis
    proof (cases "s_json r")
      case StopEmpty
      with True show ?thesis
        by (simp add: Let_def split_beta res w1_def [symmetric] w2_def [symmetric] w3_def
              stop_line_def)
    next
      case (StopDict s rf)
      with nl obtain st where "s = Some st" "fromtimestamp_ok e st" by (cases s) simp_all
      with True StopDict show ?thesis
        by (simp add: Let_def split_beta res w1_def [symmetric] w2_def [symmetric] w3_def
              stop_line_def)
    qed
  qed
  have f3: "ticks w3 = Suc (ticks w)" "trace w3 = trace w @ [ReqStop (workload n)]"
    "active_nodes w3 = active_nodes w"
    by (simp_all add: w3_def w2_def w1_def stop_workload_frame upd_defs)
  obtain l2 where l2: "logged w2 = logged w1 @ l2" "filter is_outcome l2 = []"
    using stop_workload_logged [of e "workload n" w1] unfolding w2_def by blast
  have out: "is_outcome (stop_line r (node n))"
    by (simp add: stop_line_def split: option.split)
  have l3: "logged w3 = logged w @ (StopAll (Stopping (node n) (workload n)) # l2 @ [stop_line r (node n)])"
    by (simp add: w3_def l2 logw_def) (simp add: w1_def logw_def)
  have frest: "stops_answer_well e (ticks w3) ns" using rest by (simp add: f3)
  from Cons.IH [OF frest] obtain w' ls where IH:
    "stop_all_loop e ns w3 = Inr w'"
    "trace w' = trace w3 @ map (\<lambda>n. ReqStop (workload n)) ns"
    "logged w' = logged w3 @ ls"
    "filter is_outcome ls = stop_lines e (ticks w3) ns"
    "active_nodes w' = active_nodes w3"
    "ticks w' = ticks w3 + length ns" by blast
  have "stop_all_loop e (n # ns) w = Inr w'" by (simp only: step IH)
  moreover have "trace w' = trace w @ map (\<lambda>n. ReqStop (workload n)) (n # ns)"
    by (simp add: IH f3)
  moreover have "logged w' =
      logged w @ (StopAll (Stopping (node n) (workload n)) # l2 @ [stop_line r (node n)] @ ls)"
    by (simp add: IH l3)
  moreover have "filter is_outcome
      (StopAll (Stopping (node n) (workload n)) # l2 @ [stop_line r (node n)] @ ls) =
      stop_lines e (ticks w) (n # ns)"
    using out by (simp add: l2 IH f3 r)
  moreover have "active_nodes w' = active_nodes w" "ticks w' = ticks w + length (n # ns)"
    by (simp_all add: IH f3)
  ultimately show ?case by blast
qed

lemma stop_all_when_stops_answer:
  assumes "stops_answer_well e (ticks w) (active_nodes w)"
  shows "\<exists>w' ls. stop_all_workloads e w = Inr w'
     \<and> trace w' = trace w @ map (\<lambda>n. ReqStop (workload n)) (active_nodes w)
     \<and> logged w' = logged w @ ls
     \<and> filter is_outcome ls = stop_lines e (ticks w) (active_nodes w)
     \<and> last ls = StopAll AllWorkloadsStopped
     \<and> active_nodes w' = active_nodes w"
proof -
  define w0 where "w0 = logw (StopAll (StoppingAll (length (active_nodes w)))) w"
  have f0: "ticks w0 = ticks w" "trace w0 = trace w" "active_nodes w0 = active_nodes w"
    "logged w0 = logged w @ [StopAll (StoppingAll (length (active_nodes w)))]"
    by (simp_all add: w0_def upd_defs)
  have "stops_answer_well e (ticks w0) (active_nodes w)" using assms by (simp add: f0)
  from stop_all_loop_ok [OF this] obtain w1 ls where L:
    "stop_all_loop e (active_nodes w) w0 = Inr w1"
    "trace w1 = trace w0 @ map (\<lambda>n. ReqStop (workload n)) (active_nodes w)"
    "logged w1 = logged w0 @ ls"
    "filter is_outcome ls = stop_lines e (ticks w0) (active_nodes w)"
    "active_nodes w1 = active_nodes w0" by blast
  have r: "stop_all_workloads e w = Inr (logw (StopAll AllWorkloadsStopped) w1)"
    by (simp add: stop_all_workloads_def w0_def [symmetric] L)
  have "logged (logw (StopAll AllWorkloadsStopped) w1) =
      logged w @ (StopAll (StoppingAll (length (active_nodes w))) # ls @ [StopAll AllWorkloadsStopped])"
    by (simp add: logw_def L f0)
  moreover have "filter is_outcome
      (StopAll (StoppingAll (length (active_nodes w))) # ls @ [StopAll AllWorkloadsStopped]) =
      stop_lines e (ticks w) (active_nodes w)"
    by (simp add: L f0)
  moreover have "last (StopAll (StoppingAll (length (active_nodes w))) # ls @ [StopAll AllWorkloadsStopped])
      = StopAll AllWorkloadsStopped" by simp
  moreover have "trace (logw (StopAll AllWorkloadsStopped) w1) =
      trace w @ map (\<lambda>n. ReqStop (workload n)) (active_nodes w)"
    "active_nodes (logw (StopAll AllWorkloadsStopped) w1) = active_nodes w"
    by (simp_all add: logw_def L f0)
  ultimately show ?thesis using r by blast
qed

text \<open>A successful response without a time of the stop, or with one that cannot be
  formatted, ends the loop with an exception.\<close>

lemma stop_all_loop_bad_time:
  assumes "stop_resp e (ticks w) (workload n) = Inr r" and "s_status_code r = 200"
    and "\<not> stopped_ok e (s_json r)"
  shows "\<exists>err w'. stop_all_loop e (n # ns) w = Inl (err, w')"
proof (cases "s_json r")
  case StopEmpty
  with assms(3) show ?thesis by simp
next
  case (StopDict s rf)
  show ?thesis
  proof (cases s)
    case None
    with assms(1,2) StopDict show ?thesis
      by (simp add: Let_def split_beta stop_workload_result upd_defs)
  next
    case (Some t)
    with assms StopDict show ?thesis
      by (simp add: Let_def split_beta stop_workload_result upd_defs)
  qed
qed

lemma stop_all_loop_raise_first:
  assumes "stop_resp e (ticks w) (workload n) = Inl err"
  shows "\<exists>w'. stop_all_loop e (n # ns) w = Inl (err, w')
           \<and> trace w' = trace w @ [ReqStop (workload n)]"
  using assms
  by (simp add: Let_def split_beta stop_workload_result stop_workload_frame upd_defs)

lemma stop_all_loop_append:
  "stop_all_loop e (pre @ post) w =
     (case stop_all_loop e pre w of Inl x \<Rightarrow> Inl x | Inr w' \<Rightarrow> stop_all_loop e post w')"
proof (induction pre arbitrary: w)
  case Nil
  show ?case by simp
next
  case (Cons n pre)
  show ?case
    by (simp add: Let_def split_beta Cons.IH split: sum.split option.split)
qed

text \<open>
  Claim C9 says that a failed stop does not keep \<^verbatim>\<open>stop_all_workloads\<close> from sending the
  stop requests for the remaining nodes, and that the operation returns without raising.
  The code does this for a stop that the provider answers with a status other than 200.
  A stop that fails in the exchange itself raises in \<^verbatim>\<open>stop_workload\<close>, where nothing
  catches it: after the nodes \<open>pre\<close>, whose stops were answered, the stop of the node
  \<open>n\<close> raises, \<^verbatim>\<open>stop_all_workloads\<close> raises with it, and no stop request is sent for
  the nodes \<open>post\<close>.
\<close>

theorem stop_all_aborts_at_a_raising_stop:
  assumes "active_nodes w = pre @ n # post"
    and "stops_answer_well e (ticks w) pre"
    and "stop_resp e (ticks w + length pre) (workload n) = Inl err"
  shows "\<exists>w'. stop_all_workloads e w = Inl (err, w')
     \<and> trace w' = trace w @ map (\<lambda>m. ReqStop (workload m)) (pre @ [n])"
proof -
  define w0 where "w0 = logw (StopAll (StoppingAll (length (active_nodes w)))) w"
  have f0: "ticks w0 = ticks w" "trace w0 = trace w"
    by (simp_all add: w0_def upd_defs)
  have "stops_answer_well e (ticks w0) pre" using assms(2) by (simp add: f0)
  from stop_all_loop_ok [OF this] obtain w1 where L:
    "stop_all_loop e pre w0 = Inr w1"
    "trace w1 = trace w0 @ map (\<lambda>n. ReqStop (workload n)) pre"
    "ticks w1 = ticks w0 + length pre" by blast
  have "stop_resp e (ticks w1) (workload n) = Inl err" using assms(3) by (simp add: L f0)
  from stop_all_loop_raise_first [OF this] obtain w2 where R:
    "stop_all_loop e (n # post) w1 = Inl (err, w2)"
    "trace w2 = trace w1 @ [ReqStop (workload n)]" by blast
  have "stop_all_loop e (active_nodes w) w0 = Inl (err, w2)"
    by (simp add: assms(1) stop_all_loop_append L R del: stop_all_loop.simps)
  then have "stop_all_workloads e w = Inl (err, w2)"
    by (simp add: stop_all_workloads_def w0_def [symmetric])
  moreover have "trace w2 = trace w @ map (\<lambda>m. ReqStop (workload m)) (pre @ [n])"
    by (simp add: R L f0)
  ultimately show ?thesis by blast
qed

theorem stop_all_aborts_at_a_raising_stop_witness:
  "stop_resp unreachable_env 1 ''w2'' = Inl (RequestException ''connection refused'')
   \<and> (\<exists>w'. stop_all_workloads unreachable_env (fleet_world three_nodes 3 False) =
              Inl (RequestException ''connection refused'', w')
        \<and> trace w' = [ReqStop ''w1'', ReqStop ''w2''])"
proof -
  have w: "ticks (fleet_world three_nodes 3 False) = 0"
    "trace (fleet_world three_nodes 3 False) = []"
    by (simp_all add: fleet_world_def initial_world_def)
  have a: "active_nodes (fleet_world three_nodes 3 False) =
      [example_node ''h1'' ''w1'' ''ollama_webui:fast''] @
      example_node ''h2'' ''w2'' ''ollama_webui:large'' #
      [example_node ''h3'' ''w3'' ''ollama_webui:fast'']"
    by (simp add: fleet_world_def initial_world_def three_nodes_def)
  have p: "stops_answer_well unreachable_env (ticks (fleet_world three_nodes 3 False))
      [example_node ''h1'' ''w1'' ''ollama_webui:fast'']"
    by (simp add: w unreachable_env_def steady_env_def example_node_def)
  have r: "stop_resp unreachable_env
      (ticks (fleet_world three_nodes 3 False) +
         length [example_node ''h1'' ''w1'' ''ollama_webui:fast''])
      (workload (example_node ''h2'' ''w2'' ''ollama_webui:large'')) =
      Inl (RequestException ''connection refused'')"
    by (simp add: unreachable_env_def example_node_def)
  have r1: "stop_resp unreachable_env 1 ''w2'' = Inl (RequestException ''connection refused'')"
    by (simp add: unreachable_env_def)
  show ?thesis
    using stop_all_aborts_at_a_raising_stop [OF a p r] r1
    by (simp add: w example_node_def)
qed

text \<open>The example of the specification, three nodes and a refused stop for the second one,
  goes as the claim says.\<close>

lemma stop_all_with_a_refused_stop:
  "\<exists>w' ls. stop_all_workloads refusing_env (fleet_world three_nodes 3 False) = Inr w'
        \<and> trace w' = [ReqStop ''w1'', ReqStop ''w2'', ReqStop ''w3'']
        \<and> logged w' = ls
        \<and> filter is_outcome ls =
            [StopAll (SuccessfullyStopped ''h1'' 500 7), StopAll (FailedToStop ''h2''),
             StopAll (SuccessfullyStopped ''h3'' 500 7)]"
proof -
  have w: "ticks (fleet_world three_nodes 3 False) = 0"
    "active_nodes (fleet_world three_nodes 3 False) = three_nodes"
    "trace (fleet_world three_nodes 3 False) = []"
    "logged (fleet_world three_nodes 3 False) = []"
    by (simp_all add: fleet_world_def initial_world_def)
  have c: "stops_answer_well refusing_env 0 three_nodes"
    by (simp add: three_nodes_def refusing_env_def steady_env_def example_node_def)
  have l: "stop_lines refusing_env 0 three_nodes =
            [StopAll (SuccessfullyStopped ''h1'' 500 7), StopAll (FailedToStop ''h2''),
             StopAll (SuccessfullyStopped ''h3'' 500 7)]"
    by (simp add: three_nodes_def refusing_env_def example_node_def stop_line_def)
  have m: "map (\<lambda>n. ReqStop (workload n)) three_nodes = [ReqStop ''w1'', ReqStop ''w2'', ReqStop ''w3'']"
    by (simp add: three_nodes_def example_node_def)
  show ?thesis
    using stop_all_when_stops_answer [of refusing_env "fleet_world three_nodes 3 False"] c
    by (auto simp: w l m)
qed

section \<open>Shutting down\<close>

lemma step_quiet:
  assumes "quiet s"
  shows "quiet (step e ni x s)"
    "trace (snd (step e ni x s)) = trace (snd s)"
    "active_nodes (snd (step e ni x s)) = active_nodes (snd s)"
    "x = MonitorStep \<Longrightarrow> fst (step e ni x s) = Returned"
proof -
  obtain p w where s: "s = (p, w)" by (cases s)
  from assms s have c: "p = Returned \<or> (p = AtLoopTest \<and> \<not> should_monitor w)"
    by (simp add: quiet_def)
  show "quiet (step e ni x s)" using c by (cases x) (auto simp: s quiet_def upd_defs)
  show "trace (snd (step e ni x s)) = trace (snd s)"
    using c by (cases x) (auto simp: s upd_defs)
  show "active_nodes (snd (step e ni x s)) = active_nodes (snd s)"
    using c by (cases x) (auto simp: s upd_defs)
  show "fst (step e ni x s) = Returned" if "x = MonitorStep"
    using c that by (auto simp: s)
qed

lemma run_returned:
  "fst s = Returned \<Longrightarrow> fst (run e ni xs s) = Returned"
proof (induction xs arbitrary: s)
  case Nil
  then show ?case by simp
next
  case (Cons x xs)
  obtain p w where s: "s = (p, w)" by (cases s)
  with Cons.prems have "fst (step e ni x s) = Returned" by (cases x) simp_all
  then show ?case using Cons.IH by simp
qed

lemma run_quiet:
  "quiet s \<Longrightarrow>
     quiet (run e ni xs s)
     \<and> trace (snd (run e ni xs s)) = trace (snd s)
     \<and> active_nodes (snd (run e ni xs s)) = active_nodes (snd s)
     \<and> (MonitorStep \<in> set xs \<longrightarrow> fst (run e ni xs s) = Returned)"
proof (induction xs arbitrary: s)
  case Nil
  then show ?case by simp
next
  case (Cons x xs)
  note q = step_quiet [OF Cons.prems, where e = e and ni = ni and x = x]
  note IH = Cons.IH [OF q(1)]
  have "fst (run e ni xs (step e ni x s)) = Returned" if "MonitorStep \<in> set (x # xs)"
  proof (cases "x = MonitorStep")
    case True
    then show ?thesis using q(4) run_returned by simp
  next
    case False
    with that have "MonitorStep \<in> set xs" by simp
    then show ?thesis using IH by simp
  qed
  then show ?case using IH q by simp
qed

lemma loop_with_cleared_flag: "\<not> should_monitor w \<Longrightarrow> monitor_loop n e ni w = Finished w"
  by (cases n) simp_all

text \<open>
  Claim C5, amended. A monitor that tests its loop condition when \<open>should_monitor\<close> is
  false returns at once, whatever state its node is in: it sends no request, so no stop
  and no launch, and it leaves \<open>active_nodes\<close> as it is; nothing changes this in any later
  step of the schedule. (A monitor that is inside a cycle when the flag is cleared is the
  subject of the example that follows.)
\<close>

theorem cleared_flag_read_at_the_loop_test:
  assumes "\<not> should_monitor w"
  shows "step e ni MonitorStep (AtLoopTest, w) =
           (Returned, logw (Monitor (MonitoringStopped (node ni))) w)
   \<and> monitor_loop n e ni w = Finished w
   \<and> trace (snd (run e ni xs (AtLoopTest, w))) = trace w
   \<and> active_nodes (snd (run e ni xs (AtLoopTest, w))) = active_nodes w
   \<and> (MonitorStep \<in> set xs \<longrightarrow> fst (run e ni xs (AtLoopTest, w)) = Returned)"
proof -
  have q: "quiet (AtLoopTest, w)" using assms by (simp add: quiet_def)
  show ?thesis
    using run_quiet [OF q, of e ni xs] assms loop_with_cleared_flag [OF assms] by simp
qed

theorem cleared_flag_read_at_the_loop_test_witness:
  "\<not> should_monitor ((one_node_world True)\<lparr>should_monitor := False\<rparr>)
   \<and> \<not> healthy_at dead_env 1 ''h1''
   \<and> trace (snd (run dead_env node_one [MonitorStep, MonitorStep]
                    (AtLoopTest, (one_node_world True)\<lparr>should_monitor := False\<rparr>))) = []
   \<and> active_nodes (snd (run dead_env node_one [MonitorStep, MonitorStep]
                    (AtLoopTest, (one_node_world True)\<lparr>should_monitor := False\<rparr>))) = [node_one]
   \<and> fst (run dead_env node_one [MonitorStep, MonitorStep]
                    (AtLoopTest, (one_node_world True)\<lparr>should_monitor := False\<rparr>)) = Returned"
proof -
  have w: "trace ((one_node_world True)\<lparr>should_monitor := False\<rparr>) = []"
    "active_nodes ((one_node_world True)\<lparr>should_monitor := False\<rparr>) = [node_one]"
    by (simp_all add: one_node_world_def fleet_world_def initial_world_def)
  have h: "\<not> healthy_at dead_env 1 ''h1''"
    by (simp add: healthy_at_def dead_env_def)
  show ?thesis
    using cleared_flag_read_at_the_loop_test
      [of "(one_node_world True)\<lparr>should_monitor := False\<rparr>" dead_env node_one 0
          "[MonitorStep, MonitorStep]"] w h
    by (simp del: run.simps step.simps)
qed

text \<open>One cycle for a node that does not answer, with \<open>keep_running\<close> set, evaluated.\<close>

lemmas model_defs = monitor_cycle_def get_running_workloads_def check_node_health_def
  remove_failed_node_def stop_workload_def ensure_target_node_count_def launch_workload_def
  start_node_monitoring_def alternate_type_def upd_defs Let_def split_beta

lemmas example_defs = dead_env_def steady_env_def one_node_world_def fleet_world_def
  initial_world_def node_one_def example_node_def

lemma dead_cycle_eval:
  "fst (monitor_cycle dead_env node_one ((one_node_world True)\<lparr>should_monitor := False\<rparr>)) = Break"
  "trace (snd (monitor_cycle dead_env node_one ((one_node_world True)\<lparr>should_monitor := False\<rparr>))) =
     [ReqList, ReqHealth ''h1'', ReqHealth ''h1'', ReqHealth ''h1'', ReqStop ''w1'',
      ReqLaunch ''ollama_webui:fast'' 3705,
      ThreadStart \<lparr>node = ''new-host'', workload = ''new-id'', wtype = ''ollama_webui:fast'',
                   expires = 3705, rest = []\<rparr>,
      Sleep 2]"
  "active_nodes (snd (monitor_cycle dead_env node_one ((one_node_world True)\<lparr>should_monitor := False\<rparr>))) =
     [\<lparr>node = ''new-host'', workload = ''new-id'', wtype = ''ollama_webui:fast'',
       expires = 3705, rest = []\<rparr>]"
  by (simp_all add: model_defs example_defs upt_rec)

text \<open>
  Claim C5 as stated fails for a monitor that has passed its loop test when the main
  thread clears the flag. The monitor reads the flag nowhere else, so it finishes the
  cycle: here the flag is already false, nothing has been sent yet, and the next step of
  the monitor sends a stop request, drops the node from \<open>active_nodes\<close> and launches a
  replacement.
\<close>

theorem flag_cleared_during_a_cycle:
  "fst (run dead_env node_one [MonitorStep, MainClearsFlag] (AtLoopTest, one_node_world True))
     = InLoopBody
   \<and> \<not> should_monitor
        (snd (run dead_env node_one [MonitorStep, MainClearsFlag] (AtLoopTest, one_node_world True)))
   \<and> trace (snd (run dead_env node_one [MonitorStep, MainClearsFlag]
                    (AtLoopTest, one_node_world True))) = []
   \<and> active_nodes (snd (run dead_env node_one [MonitorStep, MainClearsFlag]
                    (AtLoopTest, one_node_world True))) = [node_one]
   \<and> stop_requests (trace (snd (run dead_env node_one [MonitorStep, MainClearsFlag, MonitorStep]
                    (AtLoopTest, one_node_world True)))) = [''w1'']
   \<and> launch_requests (trace (snd (run dead_env node_one [MonitorStep, MainClearsFlag, MonitorStep]
                    (AtLoopTest, one_node_world True)))) = [''ollama_webui:fast'']
   \<and> node_one \<notin> set (active_nodes (snd (run dead_env node_one
                    [MonitorStep, MainClearsFlag, MonitorStep] (AtLoopTest, one_node_world True))))"
proof -
  have w: "should_monitor (one_node_world True)" "active_nodes (one_node_world True) = [node_one]"
    "trace (one_node_world True) = []"
    by (simp_all add: one_node_world_def fleet_world_def initial_world_def)
  have n: "node node_one = ''h1''" by (simp add: node_one_def example_node_def)
  have d: "node_one \<noteq> \<lparr>node = ''new-host'', workload = ''new-id'',
       wtype = ''ollama_webui:fast'', expires = 3705, rest = []\<rparr>"
    by (simp add: node_one_def example_node_def)
  show ?thesis
    by (simp add: w n d case_prod_unfold dead_cycle_eval upd_defs)
qed

section \<open>Topping up after failed launches\<close>

lemma launch_workload_ok:
  "(fst (launch_workload e ty w) = None) = (\<not> launch_ok e (ticks w) ty)"
  "launch_ok e (ticks w) ty \<Longrightarrow> wtype (the (fst (launch_workload e ty w))) = ty"
  by (simp_all add: launch_workload_result launch_ok_def Let_def)

lemma launch_loop_fail:
  assumes "\<not> launch_ok e (ticks w) (type_policy ty i)"
  shows "\<exists>w'. launch_loop e N ty (i # is) succ w = launch_loop e N ty is succ w'
           \<and> ticks w' = ticks w + 2"
  using assms
  apply (simp add: Let_def split_beta chosen_type launch_workload_result launch_ok_def
      launch_workload_frame upd_defs)
  apply (rule exI, rule conjI, rule refl)
  apply (simp add: launch_workload_frame)
  done

lemma launch_loop_succ:
  assumes "launch_ok e (ticks w) (type_policy ty i)"
  shows "\<exists>w' r. launch_loop e N ty (i # is) succ w = launch_loop e N ty is (succ @ [r]) w'
           \<and> ticks w' = ticks w + 2 \<and> wtype r = type_policy ty i"
  using assms
  apply (simp add: Let_def split_beta chosen_type launch_workload_result launch_ok_def
      launch_workload_frame upd_defs)
  apply (rule exI, rule exI, rule conjI, rule refl)
  apply (simp add: launch_workload_frame)
  done

lemma launch_loop_types:
  "ticks w = t0 + 2 * a \<Longrightarrow>
   map wtype (fst (launch_loop e N ty [a..<a + k] succ w)) =
     map wtype succ @
     map (type_policy ty) (filter (\<lambda>i. launch_ok e (t0 + 2 * i) (type_policy ty i)) [a..<a + k])"
proof (induction k arbitrary: a w succ)
  case 0
  show ?case by simp
next
  case (Suc k)
  have l: "[a..<a + Suc k] = a # [Suc a..<Suc a + k]" by (simp add: upt_rec)
  show ?case
  proof (cases "launch_ok e (t0 + 2 * a) (type_policy ty a)")
    case True
    then have "launch_ok e (ticks w) (type_policy ty a)" using Suc.prems by simp
    from launch_loop_succ [OF this] obtain w' r where s:
      "launch_loop e N ty (a # [Suc a..<Suc a + k]) succ w =
         launch_loop e N ty [Suc a..<Suc a + k] (succ @ [r]) w'"
      "ticks w' = ticks w + 2" "wtype r = type_policy ty a" by blast
    have t: "ticks w' = t0 + 2 * Suc a" using s(2) Suc.prems by simp
    show ?thesis
      unfolding l s(1) Suc.IH [OF t] using True by (simp add: s(3))
  next
    case False
    then have "\<not> launch_ok e (ticks w) (type_policy ty a)" using Suc.prems by simp
    from launch_loop_fail [OF this] obtain w' where s:
      "launch_loop e N ty (a # [Suc a..<Suc a + k]) succ w =
         launch_loop e N ty [Suc a..<Suc a + k] succ w'"
      "ticks w' = ticks w + 2" by blast
    have t: "ticks w' = t0 + 2 * Suc a" using s(2) Suc.prems by simp
    show ?thesis
      unfolding l s(1) Suc.IH [OF t] using False by simp
  qed
qed

lemma ensure_loop_succ:
  assumes "launch_ok e (ticks w) (type_policy (node_type_setting w) (c + i))"
  shows "\<exists>w'. ensure_loop e c n (i # is) w = ensure_loop e c n is w'
           \<and> ticks w' = ticks w + 2
           \<and> map wtype (active_nodes w') =
               map wtype (active_nodes w) @ [type_policy (node_type_setting w) (c + i)]
           \<and> node_type_setting w' = node_type_setting w"
  using assms
  apply (simp add: Let_def split_beta chosen_type launch_workload_result launch_ok_def
      launch_workload_frame upd_defs)
  apply (rule exI, rule conjI, rule refl)
  apply (simp add: launch_workload_frame start_node_monitoring_frame)
  done

lemma ensure_loop_types:
  "\<forall>t ty. ticks w \<le> t \<longrightarrow> launch_ok e t ty \<Longrightarrow>
   map wtype (active_nodes (ensure_loop e c n is w)) =
     map wtype (active_nodes w) @ map (\<lambda>i. type_policy (node_type_setting w) (c + i)) is"
proof (induction "is" arbitrary: w)
  case Nil
  show ?case by simp
next
  case (Cons i "is")
  have "launch_ok e (ticks w) (type_policy (node_type_setting w) (c + i))"
    using Cons.prems by simp
  from ensure_loop_succ [OF this] obtain w' where s:
    "ensure_loop e c n (i # is) w = ensure_loop e c n is w'"
    "ticks w' = ticks w + 2"
    "map wtype (active_nodes w') =
       map wtype (active_nodes w) @ [type_policy (node_type_setting w) (c + i)]"
    "node_type_setting w' = node_type_setting w" by blast
  have "\<forall>t ty. ticks w' \<le> t \<longrightarrow> launch_ok e t ty" using Cons.prems s(2) by simp
  from Cons.IH [OF this] have "map wtype (active_nodes (ensure_loop e c n is w')) =
     map wtype (active_nodes w) @ type_policy (node_type_setting w) (c + i) #
       map (\<lambda>i. type_policy (node_type_setting w) (c + i)) is"
    by (simp add: s(3) s(4))
  then show ?case by (simp only: s(1) list.map)
qed

lemma mset_map_filter_split:
  "mset (map f (filter P xs)) + mset (map f (filter (\<lambda>x. \<not> P x) xs)) = mset (map f xs)"
  by (induction xs) simp_all

lemma length_filter_upt: "F \<subseteq> {..<n} \<Longrightarrow> length (filter (\<lambda>i. i \<notin> F) [0..<n]) = n - card F"
proof -
  assume F: "F \<subseteq> {..<n}"
  then have fin: "finite F" using finite_subset by blast
  have "length (filter (\<lambda>i. i \<notin> F) [0..<n]) = card ({i. i \<notin> F} \<inter> set [0..<n])"
    by (simp add: distinct_length_filter)
  also have "{i. i \<notin> F} \<inter> set [0..<n] = {..<n} - F" by auto
  also have "card ({..<n} - F) = n - card F" using F fin by (simp add: card_Diff_subset)
  finally show ?thesis .
qed

lemma filter_upt_tail: "a \<le> n \<Longrightarrow> filter (\<lambda>i. i \<in> {a..<n}) [0..<n] = [a..<n]"
proof -
  assume an: "a \<le> n"
  have "[0..<a + (n - a)] = [0..<a] @ [a..<a + (n - a)]"
    by (rule upt_add_eq_append) simp
  with an have sp: "[0..<n] = [0..<a] @ [a..<n]" by simp
  have "filter (\<lambda>i. i \<in> {a..<n}) [0..<a] = []" by (simp add: filter_empty_conv)
  moreover have "filter (\<lambda>i. i \<in> {a..<n}) [a..<n] = [a..<n]" by (simp add: filter_id_conv)
  ultimately show ?thesis by (subst sp) simp
qed

text \<open>The types present after \<^verbatim>\<open>launch_nodes\<close> with \<open>keep_running\<close>, when the launches
  of the indices in \<open>F\<close> fail and every later launch succeeds: those of the indices that
  succeeded, then those of the indices from the number of successes up to \<open>N\<close>.\<close>

lemma launch_nodes_types:
  fixes N :: int and F :: "nat set"
  defines "n \<equiv> nat N"
  assumes F: "F \<subseteq> {..<n}"
    and H1: "\<forall>i<n. launch_ok e (ticks w + 1 + 2 * i) (type_policy ty i) = (i \<notin> F)"
    and H2: "\<forall>t ty'. ticks w + 1 + 2 * n \<le> t \<longrightarrow> launch_ok e t ty'"
  shows "map wtype (active_nodes (launch_nodes e N True ty w)) =
     map (type_policy ty) (filter (\<lambda>i. i \<notin> F) [0..<n]) @ map (type_policy ty) [n - card F..<n]"
proof -
  define r where "r = launch_loop e N ty [0..<nat N] [] (launch_start N True ty w)"
  define w6 where "w6 = logw (Launch (Successful (length (fst r))))
                 (logw (Launch (Requested N)) (logw (Launch LaunchSummary) (snd r)))"
  define w9 where "w9 = start_all (fst r) ((summary 0 (fst r) w6)\<lparr>active_nodes := fst r\<rparr>)"
  have ln: "launch_nodes e N True ty w =
      (if int (length (fst r)) < N then snd (ensure_target_node_count e w9) else w9)"
    unfolding launch_nodes_unfold
    by (simp add: Let_def r_def [symmetric] w6_def [symmetric] w9_def start_all_frame
          summary_frame) (simp add: w6_def upd_defs launch_loop_frame launch_start_frame r_def)
  have "map wtype (fst r) = map wtype [] @
     map (type_policy ty) (filter (\<lambda>i. launch_ok e (Suc (ticks w) + 2 * i) (type_policy ty i)) [0..<0 + n])"
    unfolding r_def n_def [symmetric]
    using launch_loop_types [where w = "launch_start N True ty w" and ?t0.0 = "Suc (ticks w)"
        and a = 0 and k = n and succ = "[]" and e = e and N = N and ty = ty]
    by (simp add: launch_start_frame)
  moreover have "filter (\<lambda>i. launch_ok e (Suc (ticks w) + 2 * i) (type_policy ty i)) [0..<n] =
      filter (\<lambda>i. i \<notin> F) [0..<n]"
    using H1 by (intro filter_cong) simp_all
  ultimately have tr: "map wtype (fst r) = map (type_policy ty) (filter (\<lambda>i. i \<notin> F) [0..<n])"
    by simp
  have len: "length (fst r) = n - card F"
    using length_filter_upt [OF F] arg_cong [OF tr, of length] by simp
  have f9: "active_nodes w9 = fst r" "keep_running w9" "target_node_count w9 = N"
    "node_type_setting w9 = ty" "ticks w9 = Suc (ticks w) + 2 * n"
    by (simp_all add: w9_def start_all_frame summary_frame w6_def upd_defs launch_loop_frame
          launch_start_frame r_def n_def)
  show ?thesis
  proof (cases "int (length (fst r)) < N")
    case False
    then have "n \<le> length (fst r)" by (simp add: n_def)
    with len have "[n - card F..<n] = []" by simp
    with False show ?thesis by (simp add: ln f9 tr)
  next
    case True
    define c where "c = length (fst r)"
    define w1 where "w1 = logw (Reconcile (BelowTarget c N (nat (N - int c)))) w9"
    have en: "snd (ensure_target_node_count e w9) = ensure_loop e c (n - c) [0..<n - c] w1"
      using True
      by (simp add: ensure_target_node_count_def f9 Let_def c_def [symmetric] w1_def n_def
            nat_diff_distrib')
    have f1: "active_nodes w1 = fst r" "node_type_setting w1 = ty"
      "ticks w1 = Suc (ticks w) + 2 * n"
      by (simp_all add: w1_def upd_defs f9)
    have ok: "\<forall>t ty'. ticks w1 \<le> t \<longrightarrow> launch_ok e t ty'" using H2 by (simp add: f1)
    have cn: "c \<le> n" using True by (simp add: c_def n_def)
    have "map wtype (active_nodes (ensure_loop e c (n - c) [0..<n - c] w1)) =
        map wtype (fst r) @ map (type_policy ty) [c..<n]"
      using ensure_loop_types [OF ok, of c "n - c" "[0..<n - c]"] cn
      by (simp add: f1 map_add_upt)
    then show ?thesis using True by (simp add: ln en tr c_def len)
  qed
qed

lemma first_launch_fails_eval:
  "map wtype (active_nodes (launch_nodes (failing_launch_env 2) 2 True ''alternate'' (initial_world 30)))
     = [''ollama_webui:large'', ''ollama_webui:large'']"
proof -
  have F: "{0::nat} \<subseteq> {..<nat 2}" by simp
  have H1: "\<forall>i<nat 2. launch_ok (failing_launch_env 2) (ticks (initial_world 30) + 1 + 2 * i)
        (type_policy ''alternate'' i) = (i \<notin> {0})"
    by (simp add: launch_ok_def failing_launch_env_def initial_world_def)
  have H2: "\<forall>t ty'. ticks (initial_world 30) + 1 + 2 * nat 2 \<le> t \<longrightarrow>
        launch_ok (failing_launch_env 2) t ty'"
    by (simp add: launch_ok_def failing_launch_env_def initial_world_def)
  show ?thesis
    using launch_nodes_types [OF F H1 H2] by (simp add: type_policy_def upt_rec)
qed

text \<open>
  Claim C3 as stated fails when a launch other than the last ones fails. Two nodes are
  wanted and the launch of index 0 (fast) is refused: one node (large) is running, the
  top-up continues at index 1 and launches a second large node. An uninterrupted launch
  gives one fast and one large node.
\<close>

theorem failed_first_launch_changes_the_types:
  "\<not> launch_ok (failing_launch_env 2) 1 ''ollama_webui:fast''
   \<and> (\<forall>t ty. launch_ok (failing_launch_env 2) (t + 2) ty)
   \<and> map wtype (active_nodes
        (launch_nodes (failing_launch_env 2) 2 True ''alternate'' (initial_world 30)))
       = [''ollama_webui:large'', ''ollama_webui:large'']
   \<and> map (type_policy ''alternate'') [0..<nat 2] = [''ollama_webui:fast'', ''ollama_webui:large'']
   \<and> mset (map wtype (active_nodes
        (launch_nodes (failing_launch_env 2) 2 True ''alternate'' (initial_world 30))))
       \<noteq> mset (map (type_policy ''alternate'') [0..<nat 2])"
proof -
  have u: "map (type_policy ''alternate'') [0..<nat 2] =
      [''ollama_webui:fast'', ''ollama_webui:large'']"
    by (simp add: upt_rec type_policy_def)
  have f: "\<not> launch_ok (failing_launch_env 2) 1 ''ollama_webui:fast''"
    "\<forall>t ty. launch_ok (failing_launch_env 2) (t + 2) ty"
    by (simp_all add: launch_ok_def failing_launch_env_def)
  show ?thesis
    unfolding first_launch_fails_eval u using f by simp
qed

text \<open>
  Claim C3, amended. Let the launches of the indices in \<open>F\<close> fail during the initial
  launch of \<open>N\<close> nodes and let the provider succeed from then on. After the top-up the
  types present are those of the indices that succeeded followed by those of the indices
  \<open>N - |F|, \<dots>, N - 1\<close>. As a multiset this is the outcome of an uninterrupted launch
  exactly when the indices \<open>N - |F|, \<dots>, N - 1\<close> carry the same types as the failed
  ones; so it is whenever the failed launches are the last ones. (Started in the state
  \<open>w\<close>, the launch of index \<open>i\<close> reads the clock at tick \<open>ticks w + 1 + 2 * i\<close>, and the
  top-up begins at tick \<open>ticks w + 1 + 2 * N\<close>.)
\<close>

theorem top_up_continues_from_fleet_size:
  assumes "F \<subseteq> {..<nat N}"
    and "\<forall>i<nat N. launch_ok e (ticks w + 1 + 2 * i) (type_policy ty i) = (i \<notin> F)"
    and "\<forall>t ty'. ticks w + 1 + 2 * nat N \<le> t \<longrightarrow> launch_ok e t ty'"
  shows "map wtype (active_nodes (launch_nodes e N True ty w)) =
       map (type_policy ty) (filter (\<lambda>i. i \<notin> F) [0..<nat N]) @
       map (type_policy ty) [nat N - card F..<nat N]
   \<and> (mset (map wtype (active_nodes (launch_nodes e N True ty w))) =
         mset (map (type_policy ty) [0..<nat N])) =
       (mset (map (type_policy ty) (filter (\<lambda>i. i \<in> F) [0..<nat N])) =
         mset (map (type_policy ty) [nat N - card F..<nat N]))
   \<and> (F = {nat N - card F..<nat N} \<longrightarrow>
        mset (map wtype (active_nodes (launch_nodes e N True ty w))) =
          mset (map (type_policy ty) [0..<nat N]))"
proof -
  define A where "A = mset (map (type_policy ty) (filter (\<lambda>i. i \<notin> F) [0..<nat N]))"
  define B where "B = mset (map (type_policy ty) (filter (\<lambda>i. i \<in> F) [0..<nat N]))"
  define C where "C = mset (map (type_policy ty) [nat N - card F..<nat N])"
  note types = launch_nodes_types [OF assms]
  have final: "mset (map wtype (active_nodes (launch_nodes e N True ty w))) = A + C"
    by (simp add: types A_def C_def)
  have full: "mset (map (type_policy ty) [0..<nat N]) = B + A"
    using mset_map_filter_split [of "type_policy ty" "\<lambda>i. i \<in> F" "[0..<nat N]"]
    by (simp add: A_def B_def)
  have iff: "(A + C = B + A) = (B = C)" by (auto simp: add.commute)
  have tail: "B = C" if "F = {nat N - card F..<nat N}"
  proof -
    have "filter (\<lambda>i. i \<in> {nat N - card F..<nat N}) [0..<nat N] = [nat N - card F..<nat N]"
      by (rule filter_upt_tail) simp
    with that have "filter (\<lambda>i. i \<in> F) [0..<nat N] = [nat N - card F..<nat N]" by simp
    then show ?thesis by (simp add: B_def C_def)
  qed
  show ?thesis
    unfolding final full iff using types tail by (simp add: B_def C_def)
qed

theorem top_up_continues_from_fleet_size_witness:
  "\<not> launch_ok (failing_launch_env 6) 5 ''ollama_webui:fast''
   \<and> map wtype (active_nodes
        (launch_nodes (failing_launch_env 6) 3 True ''alternate'' (initial_world 30))) =
       [''ollama_webui:fast'', ''ollama_webui:large'', ''ollama_webui:fast'']
   \<and> mset (map wtype (active_nodes
        (launch_nodes (failing_launch_env 6) 3 True ''alternate'' (initial_world 30)))) =
       mset (map (type_policy ''alternate'') [0..<nat 3])"
proof -
  have F: "{2::nat} \<subseteq> {..<nat 3}" by simp
  have H1: "\<forall>i<nat 3. launch_ok (failing_launch_env 6) (ticks (initial_world 30) + 1 + 2 * i)
        (type_policy ''alternate'' i) = (i \<notin> {2})"
    by (auto simp: launch_ok_def failing_launch_env_def initial_world_def)
  have H2: "\<forall>t ty'. ticks (initial_world 30) + 1 + 2 * nat 3 \<le> t \<longrightarrow>
        launch_ok (failing_launch_env 6) t ty'"
    by (simp add: launch_ok_def failing_launch_env_def initial_world_def)
  have f: "\<not> launch_ok (failing_launch_env 6) 5 ''ollama_webui:fast''"
    by (simp add: launch_ok_def failing_launch_env_def)
  have seg: "{2::nat} = {nat 3 - card {2::nat}..<nat 3}" by auto
  have u: "[0..<3] = [0, 1, 2::nat]" "[2..<3] = [2::nat]"
    by (simp_all add: upt_rec)
  note t = top_up_continues_from_fleet_size [OF F H1 H2]
  have l: "map (type_policy ''alternate'') (filter (\<lambda>i. i \<notin> {2}) [0..<nat 3]) @
       map (type_policy ''alternate'') [nat 3 - card {2::nat}..<nat 3] =
       [''ollama_webui:fast'', ''ollama_webui:large'', ''ollama_webui:fast'']"
    by (simp add: u type_policy_def)
  have a: "map wtype (active_nodes
        (launch_nodes (failing_launch_env 6) 3 True ''alternate'' (initial_world 30))) =
       [''ollama_webui:fast'', ''ollama_webui:large'', ''ollama_webui:fast'']"
    using t [THEN conjunct1] unfolding l .
  have c: "mset (map wtype (active_nodes
        (launch_nodes (failing_launch_env 6) 3 True ''alternate'' (initial_world 30)))) =
       mset (map (type_policy ''alternate'') [0..<nat 3])"
    using t [THEN conjunct2, THEN conjunct2] seg by blast
  show ?thesis using f a c by blast
qed

section \<open>The failure counter\<close>

lemma counter_neutral [simp]:
  "cycle_counter h (Provider p) c = c"
  "cycle_counter h (StopAll s) c = c"
  "cycle_counter h (Reconcile r) c = c"
  "cycle_counter h (Launch la) c = c"
  "cycle_counter h (MainLog m) c = c"
  "cycle_counter h (Monitor (StartingMonitoring a b)) c = c"
  "cycle_counter h (Monitor (InitialCheckFailed a)) c = c"
  "cycle_counter h (Monitor (NoLongerInWorkloads a b)) c = c"
  "cycle_counter h (Monitor (AttemptFailed a k)) c = c"
  "cycle_counter h (Monitor (MonitoringStopped a)) c = c"
  "cycle_counter h (Monitor (MonitoringThreadStarted a i)) c = c"
  "cycle_counter h (Monitor (NodeHealthy h)) c = 0"
  "cycle_counter h (Monitor (NodeUp h)) c = 0"
  "cycle_counter h (Monitor (FailedAllChecks h)) c = Suc c"
  by (simp_all add: cycle_counter_def)

lemma count_calls:
  "fold (cycle_counter h) (logged (snd (get_running_workloads e w))) c =
     fold (cycle_counter h) (logged w) c"
  "fold (cycle_counter h) (logged (snd (check_node_health e a w))) c =
     fold (cycle_counter h) (logged w) c"
  "fold (cycle_counter h) (logged (snd (stop_workload e i w))) c =
     fold (cycle_counter h) (logged w) c"
  "fold (cycle_counter h) (logged (snd (launch_workload e ty w))) c =
     fold (cycle_counter h) (logged w) c"
  "fold (cycle_counter h) (logged (start_node_monitoring r w)) c =
     fold (cycle_counter h) (logged w) c"
  by (simp_all add: get_running_workloads_def check_node_health_def stop_workload_def
        launch_workload_def start_node_monitoring_def Let_def upd_defs
        split: health_response.split sum.split)

lemma count_retry_loop:
  "fold (cycle_counter h) (logged (snd (retry_loop e a rs w))) c =
     fold (cycle_counter h) (logged w) c"
  by (induction rs arbitrary: w) (simp_all add: split_beta count_calls upd_defs)

lemma ensure_loop_step:
  "\<exists>w'. ensure_loop e k n (i # is) w = ensure_loop e k n is w'
     \<and> fold (cycle_counter h) (logged w') c = fold (cycle_counter h) (logged w) c
     \<and> (node_failures w h = Some 0 \<longrightarrow> node_failures w' h = Some 0)
     \<and> (zeroed w \<longrightarrow> zeroed w')"
proof (cases "launch_ok e (ticks w) (type_policy (node_type_setting w) (k + i))")
  case True
  then show ?thesis
    apply (simp add: Let_def split_beta chosen_type launch_workload_result launch_ok_def
        launch_workload_frame upd_defs)
    apply (rule exI, rule conjI, rule refl)
    apply (auto simp: launch_workload_frame start_node_monitoring_frame count_calls zeroed_def
        start_node_monitoring_def launch_workload_def Let_def upd_defs)
    done
next
  case False
  then show ?thesis
    apply (simp add: Let_def split_beta chosen_type launch_workload_result launch_ok_def
        launch_workload_frame upd_defs)
    apply (rule exI, rule conjI, rule refl)
    apply (auto simp: launch_workload_frame count_calls zeroed_def launch_workload_def Let_def
        upd_defs)
    done
qed

lemma ensure_loop_counter:
  "fold (cycle_counter h) (logged (ensure_loop e k n is w)) c =
     fold (cycle_counter h) (logged w) c
   \<and> (node_failures w h = Some 0 \<longrightarrow> node_failures (ensure_loop e k n is w) h = Some 0)
   \<and> (zeroed w \<longrightarrow> zeroed (ensure_loop e k n is w))"
proof (induction "is" arbitrary: w)
  case Nil
  show ?case by simp
next
  case (Cons i "is")
  obtain w' where s: "ensure_loop e k n (i # is) w = ensure_loop e k n is w'"
    "fold (cycle_counter h) (logged w') c = fold (cycle_counter h) (logged w) c"
    "node_failures w h = Some 0 \<longrightarrow> node_failures w' h = Some 0"
    "zeroed w \<longrightarrow> zeroed w'"
    using ensure_loop_step [of e k n i "is" w h c] by blast
  show ?case
    unfolding s(1) using Cons.IH [of w'] s(2,3,4) by simp
qed

lemma ensure_counter:
  "fold (cycle_counter h) (logged (snd (ensure_target_node_count e w))) c =
     fold (cycle_counter h) (logged w) c"
  "node_failures w h = Some 0 \<Longrightarrow> node_failures (snd (ensure_target_node_count e w)) h = Some 0"
  "zeroed w \<Longrightarrow> zeroed (snd (ensure_target_node_count e w))"
proof -
  have z: "zeroed (logw l w) = zeroed w" for l by (simp add: zeroed_def upd_defs)
  show "fold (cycle_counter h) (logged (snd (ensure_target_node_count e w))) c =
     fold (cycle_counter h) (logged w) c"
    by (simp add: ensure_target_node_count_def Let_def ensure_loop_counter upd_defs)
  show "node_failures (snd (ensure_target_node_count e w)) h = Some 0"
    if "node_failures w h = Some 0"
    using that by (simp add: ensure_target_node_count_def Let_def ensure_loop_counter upd_defs)
  show "zeroed (snd (ensure_target_node_count e w))" if "zeroed w"
    using that by (simp add: ensure_target_node_count_def Let_def ensure_loop_counter z)
qed

lemma reconcile_if_kept_counter:
  "fold (cycle_counter h) (logged (reconcile_if_kept e w)) c = fold (cycle_counter h) (logged w) c"
  "node_failures w h = Some 0 \<Longrightarrow> node_failures (reconcile_if_kept e w) h = Some 0"
  by (simp_all add: reconcile_if_kept_def ensure_counter)

lemma failed_cycle_state_counter:
  "fold (cycle_counter (node ni)) (logged (failed_cycle_state e ni w)) c =
     Suc (fold (cycle_counter (node ni)) (logged w) c)"
  by (simp add: failed_cycle_state_def logw_def count_retry_loop count_calls)

lemma cycle_continue_counter:
  assumes c: "fst (monitor_cycle e ni w) = Continue"
  shows "node_failures (snd (monitor_cycle e ni w)) = node_failures w"
    "last (logged (snd (monitor_cycle e ni w))) = Monitor (NodeHealthy (node ni))"
proof -
  have l: "listed e w ni"
  proof (rule ccontr)
    assume "\<not> listed e w ni"
    from cycle_absent(1) [OF this] c show False by simp
  qed
  note m = monitor_cycle_listed [OF l [unfolded listed_iff]]
  define r where "r = retry_loop e (node ni) [0..<3] (snd (get_running_workloads e w))"
  have f: "fst r"
  proof (rule ccontr)
    assume "\<not> fst r"
    then have "fst (monitor_cycle e ni w) \<noteq> Continue"
      by (simp add: m Let_def r_def [symmetric] split: sum.split prod.split)
    with c show False by simp
  qed
  have s: "snd (monitor_cycle e ni w) =
      emit (Sleep (WORKLOAD_POLL w)) (logw (Monitor (NodeHealthy (node ni))) (snd r))"
    using f by (simp add: m Let_def r_def [symmetric])
  show "node_failures (snd (monitor_cycle e ni w)) = node_failures w"
    by (simp add: s r_def upd_defs retry_loop_frame get_running_workloads_frame)
  show "last (logged (snd (monitor_cycle e ni w))) = Monitor (NodeHealthy (node ni))"
    by (simp add: s upd_defs)
qed

text \<open>The only writes to \<open>node_failures\<close> are those of the launches, which set the entry of
  the new host to 0.\<close>

lemma launch_loop_step_zero:
  "\<exists>w' succ'. launch_loop e N ty (i # is) succ w = launch_loop e N ty is succ' w'
     \<and> ((\<forall>m\<in>set succ. node_failures w (node m) = Some 0) \<longrightarrow>
          (\<forall>m\<in>set succ'. node_failures w' (node m) = Some 0))"
proof (cases "launch_ok e (ticks w) (type_policy ty i)")
  case True
  then show ?thesis
    apply (simp add: Let_def split_beta chosen_type launch_workload_result launch_ok_def
        launch_workload_frame upd_defs)
    apply (rule exI, rule exI, rule conjI, rule refl)
    apply (auto simp: launch_workload_def Let_def upd_defs)
    done
next
  case False
  then show ?thesis
    apply (simp add: Let_def split_beta chosen_type launch_workload_result launch_ok_def
        launch_workload_frame upd_defs)
    apply (rule exI, rule exI, rule conjI, rule refl)
    apply (auto simp: launch_workload_def Let_def upd_defs)
    done
qed

lemma launch_loop_zeroed:
  "\<forall>m\<in>set succ. node_failures w (node m) = Some 0 \<Longrightarrow>
   \<forall>m\<in>set (fst (launch_loop e N ty is succ w)).
      node_failures (snd (launch_loop e N ty is succ w)) (node m) = Some 0"
proof (induction "is" arbitrary: succ w)
  case Nil
  then show ?case by simp
next
  case (Cons i "is")
  obtain w' succ' where s:
    "launch_loop e N ty (i # is) succ w = launch_loop e N ty is succ' w'"
    "(\<forall>m\<in>set succ. node_failures w (node m) = Some 0) \<longrightarrow>
          (\<forall>m\<in>set succ'. node_failures w' (node m) = Some 0)"
    using launch_loop_step_zero [of e N ty i "is" succ w] by blast
  from s(2) Cons.prems have "\<forall>m\<in>set succ'. node_failures w' (node m) = Some 0" by simp
  from Cons.IH [OF this] show ?case unfolding s(1) .
qed

lemma node_failures_summary: "node_failures (summary k ns w) = node_failures w"
  by (induction k ns w rule: summary.induct) (simp_all add: upd_defs)

lemma node_failures_start_all: "node_failures (start_all ns w) = node_failures w"
  by (induction ns w rule: start_all.induct) (simp_all add: start_node_monitoring_frame)

lemma launch_nodes_zeroed: "zeroed (launch_nodes e N k ty w)"
proof -
  define r where "r = launch_loop e N ty [0..<nat N] [] (launch_start N k ty w)"
  define w9 where "w9 = start_all (fst r) ((summary 0 (fst r)
      (logw (Launch (Successful (length (fst r))))
         (logw (Launch (Requested N)) (logw (Launch LaunchSummary) (snd r)))))
      \<lparr>active_nodes := fst r\<rparr>)"
  have ln: "launch_nodes e N k ty w =
      (if keep_running w9 \<and> int (length (fst r)) < N
       then snd (ensure_target_node_count e w9) else w9)"
    unfolding launch_nodes_unfold
    by (simp add: Let_def r_def [symmetric] w9_def start_all_frame summary_frame)
  have "\<forall>m\<in>set (fst r). node_failures (snd r) (node m) = Some 0"
    unfolding r_def by (rule launch_loop_zeroed) simp
  then have z: "zeroed w9"
    by (simp add: zeroed_def w9_def start_all_frame node_failures_start_all
          node_failures_summary upd_defs)
  show ?thesis using z by (simp add: ln ensure_counter)
qed

text \<open>
  Claim C8 says that the counter of a node in the fleet is the number of failed cycles
  since the node's last successful health check, and that a successful check sets it to 0.
  The script declares the counter for this (\<^verbatim>\<open>node_failures\<close>, ``track failure counts per
  node'') and sets it to 0 when a node is launched, but no line adds to it and no line
  sets it after a check. In the state in which line 258 calls \<^verbatim>\<open>remove_failed_node\<close>,
  after a cycle whose checks all failed, the node is still in the fleet, the number of
  failed cycles since its last success has gone up by one, and the counter is what it was.
  A cycle with a successful check leaves the counter as it was, whatever its value.
\<close>

theorem failure_counter_is_never_updated:
  "node_failures (failed_cycle_state e ni w) = node_failures w
   \<and> active_nodes (failed_cycle_state e ni w) = active_nodes w
   \<and> consecutive_failures (node ni) (logged (failed_cycle_state e ni w)) =
       Suc (consecutive_failures (node ni) (logged w))
   \<and> (listed e w ni \<and> \<not> healthy_at e (ticks w + 1) (node ni)
        \<and> \<not> healthy_at e (ticks w + 2) (node ni) \<and> \<not> healthy_at e (ticks w + 3) (node ni)
      \<longrightarrow> monitor_cycle e ni w =
            (case remove_failed_node e ni (failed_cycle_state e ni w) of
               Inl (err, w3) \<Rightarrow> (Raise err, w3)
             | Inr w3 \<Rightarrow> (Break, w3)))
   \<and> (fst (monitor_cycle e ni w) = Continue
      \<longrightarrow> last (logged (snd (monitor_cycle e ni w))) = Monitor (NodeHealthy (node ni))
          \<and> node_failures (snd (monitor_cycle e ni w)) = node_failures w)"
proof -
  have a: "consecutive_failures (node ni) (logged (failed_cycle_state e ni w)) =
       Suc (consecutive_failures (node ni) (logged w))"
    by (simp add: consecutive_failures_def failed_cycle_state_counter)
  have b: "monitor_cycle e ni w =
            (case remove_failed_node e ni (failed_cycle_state e ni w) of
               Inl (err, w3) \<Rightarrow> (Raise err, w3)
             | Inr w3 \<Rightarrow> (Break, w3))"
    if l: "listed e w ni" and h: "\<not> healthy_at e (ticks w + 1) (node ni)"
      "\<not> healthy_at e (ticks w + 2) (node ni)" "\<not> healthy_at e (ticks w + 3) (node ni)"
    using h
    by (simp add: monitor_cycle_listed [OF l [unfolded listed_iff]] Let_def
          failed_cycle_state_checks(1))
  show ?thesis
    using a b cycle_continue_counter [of e ni w]
    by (simp add: failed_cycle_state_frame)
qed

theorem failure_counter_is_never_updated_witness:
  "listed dead_env tracked_world node_one
   \<and> \<not> healthy_at dead_env 1 ''h1'' \<and> \<not> healthy_at dead_env 2 ''h1''
   \<and> \<not> healthy_at dead_env 3 ''h1''
   \<and> node_failures tracked_world ''h1'' = Some 0
   \<and> consecutive_failures ''h1'' (logged tracked_world) = 0
   \<and> monitor_cycle dead_env node_one tracked_world =
       (case remove_failed_node dead_env node_one
               (failed_cycle_state dead_env node_one tracked_world) of
          Inl (err, w3) \<Rightarrow> (Raise err, w3)
        | Inr w3 \<Rightarrow> (Break, w3))
   \<and> node_one \<in> set (active_nodes (failed_cycle_state dead_env node_one tracked_world))
   \<and> consecutive_failures ''h1''
        (logged (failed_cycle_state dead_env node_one tracked_world)) = 1
   \<and> node_failures (failed_cycle_state dead_env node_one tracked_world) ''h1'' = Some 0
   \<and> node_failures marked_world ''h1'' = Some 5
   \<and> fst (monitor_cycle flaky_env node_one marked_world) = Continue
   \<and> last (logged (snd (monitor_cycle flaky_env node_one marked_world))) =
        Monitor (NodeHealthy ''h1'')
   \<and> node_failures (snd (monitor_cycle flaky_env node_one marked_world)) ''h1'' = Some 5"
proof -
  have n: "node node_one = ''h1''" by (simp add: node_one_def example_node_def)
  have w: "node_failures tracked_world ''h1'' = Some 0" "logged tracked_world = []"
    "ticks tracked_world = 0" "active_nodes tracked_world = [node_one]"
    by (simp_all add: tracked_world_def one_node_world_def fleet_world_def initial_world_def)
  have m: "node_failures marked_world ''h1'' = Some 5" "ticks marked_world = 0"
    by (simp_all add: marked_world_def one_node_world_def fleet_world_def initial_world_def)
  have c: "consecutive_failures ''h1'' (logged tracked_world) = 0"
    by (simp add: w consecutive_failures_def)
  have l: "listed dead_env tracked_world node_one"
    by (simp add: listed_def w dead_env_def steady_env_def node_one_def example_node_def)
  have h: "\<not> healthy_at dead_env 1 ''h1''" "\<not> healthy_at dead_env 2 ''h1''"
    "\<not> healthy_at dead_env 3 ''h1''"
    by (simp_all add: healthy_at_def dead_env_def)
  have h': "\<not> healthy_at dead_env (ticks tracked_world + 1) (node node_one)"
    "\<not> healthy_at dead_env (ticks tracked_world + 2) (node node_one)"
    "\<not> healthy_at dead_env (ticks tracked_world + 3) (node node_one)"
    by (simp_all add: healthy_at_def dead_env_def)
  have lf: "listed flaky_env marked_world node_one"
    by (simp add: listed_def m flaky_env_def steady_env_def node_one_def example_node_def)
  have hf: "healthy_at flaky_env (ticks marked_world + 1) (node node_one)
      \<or> healthy_at flaky_env (ticks marked_world + 2) (node node_one)
      \<or> healthy_at flaky_env (ticks marked_world + 3) (node node_one)"
    by (simp add: healthy_at_def flaky_env_def)
  note k = cycle_healthy(1) [OF lf hf]
  note d = failure_counter_is_never_updated [of dead_env node_one tracked_world]
  note f = failure_counter_is_never_updated [of flaky_env node_one marked_world]
  have d1: "node_failures (failed_cycle_state dead_env node_one tracked_world) ''h1'' = Some 0"
    using d w(1) by simp
  have d2: "node_one \<in> set (active_nodes (failed_cycle_state dead_env node_one tracked_world))"
    using d w(4) by simp
  have d3: "consecutive_failures ''h1''
        (logged (failed_cycle_state dead_env node_one tracked_world)) = 1"
    using d c by (simp add: n)
  have d4: "monitor_cycle dead_env node_one tracked_world =
       (case remove_failed_node dead_env node_one
               (failed_cycle_state dead_env node_one tracked_world) of
          Inl (err, w3) \<Rightarrow> (Raise err, w3)
        | Inr w3 \<Rightarrow> (Break, w3))"
    using d l h' by blast
  have f1: "last (logged (snd (monitor_cycle flaky_env node_one marked_world))) =
        Monitor (NodeHealthy ''h1'')"
    "node_failures (snd (monitor_cycle flaky_env node_one marked_world)) ''h1'' = Some 5"
    using f k m(1) by (simp_all add: n)
  show ?thesis
    using l h w(1) c d1 d2 d3 d4 m(1) k f1 by simp
qed

end
